theory Spec2Isabelle
  imports Complex_Main "HOL-Library.Sublist"
begin

section \<open>Candidate gene filter of the Figure 6 pseudotime notebook\<close>

text \<open>
  The development embeds the helper functions of
  \<^verbatim>\<open>05_Figure6_PE_Aged_pseudotime.ipynb\<close>: \<^verbatim>\<open>get_grouped_data\<close>,
  \<^verbatim>\<open>filter_genes_by_conditions\<close>, \<^verbatim>\<open>calc_avg_distance\<close>,
  \<^verbatim>\<open>calc_fib_fraction\<close> and the \<^verbatim>\<open>log2fc\<close> expression of the Figure 6A cell.

  Numbers are real numbers, so rounding of floating point is outside the model, but for
  the bin edges: the binner takes the function that computes them as a parameter, and
  its theorem holds for rounded edges too. A NaN that pandas or numpy produces for an
  empty mean is the value \<open>None\<close>, and a comparison with NaN is false, as in Python.
  Exceptions are values of type \<open>error\<close>.
\<close>

subsection \<open>Data model\<close>

type_synonym gene = string

text \<open>
  One row of \<^verbatim>\<open>adata.obs\<close>, of \<^verbatim>\<open>adata.obsm["spatial"]\<close> and of
  \<^verbatim>\<open>expr_all\<close> (which the notebook builds from \<^verbatim>\<open>adata.X\<close> with the same
  index): the row of expression values is a function of the column label.
\<close>

record cell =
  cell_type2 :: string
  cell_niche :: string
  pseudotime :: real
  spatial :: "real \<times> real"
  expr :: "gene \<Rightarrow> real"

record anndata =
  var_names :: "gene list"
  obs :: "cell list"

text \<open>The module-level parameters of the setup cell.\<close>

record config =
  fibrotic_niches :: "string list"
  remote_niche :: string
  NUM_BINS :: int
  min_std :: real
  min_fraction_target :: real
  fib_fraction_threshold :: real
  early_phase_bins :: int
  fold_change_threshold :: real

text \<open>The values the notebook assigns.\<close>

definition notebook_config :: config where
  "notebook_config =
     \<lparr> fibrotic_niches = [''Fibrotic Niche'', ''Ultraproximal'', ''Proximal''],
       remote_niche = ''Remote'',
       NUM_BINS = 50,
       min_std = 1 / 10000,
       min_fraction_target = 1 / 10,
       fib_fraction_threshold = 3 / 10,
       early_phase_bins = 50,
       fold_change_threshold = 2 \<rparr>"

datatype error = ValueError | IndexError

text \<open>
  \<^verbatim>\<open>scipy.ndimage.gaussian_filter1d\<close> is a library function; the model takes it as a
  parameter \<open>gf\<close>, applied to the standard deviation and the samples.
\<close>

type_synonym smoother = "real \<Rightarrow> real list \<Rightarrow> real list"

subsection \<open>Series reductions\<close>

definition mean :: "real list \<Rightarrow> real option" where
  "mean xs = (if xs = [] then None else Some (sum_list xs / real (length xs)))"

text \<open>\<^verbatim>\<open>Series.std\<close> has one delta degree of freedom: fewer than two values give NaN.\<close>

definition std :: "real list \<Rightarrow> real option" where
  "std xs =
     (if length xs < 2 then None
      else let m = sum_list xs / real (length xs)
           in Some (sqrt (sum_list (map (\<lambda>x. (x - m)\<^sup>2) xs) / real (length xs - 1))))"

definition nan_gt :: "real option \<Rightarrow> real \<Rightarrow> bool" where
  "nan_gt a b = (case a of None \<Rightarrow> False | Some x \<Rightarrow> b < x)"

definition nan_ge :: "real option \<Rightarrow> real \<Rightarrow> bool" where
  "nan_ge a b = (case a of None \<Rightarrow> False | Some x \<Rightarrow> b \<le> x)"

definition nan_le :: "real option \<Rightarrow> real \<Rightarrow> bool" where
  "nan_le a b = (case a of None \<Rightarrow> False | Some x \<Rightarrow> x \<le> b)"

definition indicator_list :: "('a \<Rightarrow> bool) \<Rightarrow> 'a list \<Rightarrow> real list" where
  "indicator_list P xs = map (\<lambda>x. if P x then 1 else 0) xs"

definition column :: "cell list \<Rightarrow> gene \<Rightarrow> real list" where
  "column cs g = map (\<lambda>c. expr c g) cs"

text \<open>Python's slice \<^verbatim>\<open>xs[:n]\<close>; a negative bound counts from the end.\<close>

definition py_take :: "int \<Rightarrow> 'a list \<Rightarrow> 'a list" where
  "py_take n xs =
     (if 0 \<le> n then take (nat n) xs else take (nat (int (length xs) + n)) xs)"

subsection \<open>The pseudotime binner\<close>

text \<open>
  \<^verbatim>\<open>np.linspace(start, stop, num)\<close>: a negative count raises, one sample is the start
  alone, otherwise the samples are \<open>start + i * step\<close> with the last equal to \<open>stop\<close>.
\<close>

definition linspace :: "real \<Rightarrow> real \<Rightarrow> int \<Rightarrow> error + real list" where
  "linspace start stop num =
     (if num < 0 then Inl ValueError
      else if num = 0 then Inr []
      else if num = 1 then Inr [start]
      else Inr (map (\<lambda>i. start + real i * ((stop - start) / real_of_int (num - 1)))
                  [0..<nat num]))"

text \<open>
  \<^verbatim>\<open>pd.cut(x, bins=bins, labels=range(n), include_lowest=True)\<close> with array edges:
  the edges must not decrease; repeated edges raise unless there are exactly two edges;
  a value gets the number of edges strictly below it (\<^verbatim>\<open>searchsorted\<close>, left side),
  a value equal to the first edge gets 1, the numbers 0 and \<open>len(bins)\<close> are missing
  values; there must be one label fewer than edges; the label is the number minus one.
\<close>

definition searchsorted_left :: "real list \<Rightarrow> real \<Rightarrow> nat" where
  "searchsorted_left bins x = length (filter (\<lambda>b. b < x) bins)"

definition cut_id :: "real list \<Rightarrow> real \<Rightarrow> nat option" where
  "cut_id bins x =
     (let ids = (if x = hd bins then 1 else searchsorted_left bins x)
      in if ids = length bins \<or> ids = 0 then None else Some (ids - 1))"

definition pd_cut :: "real list \<Rightarrow> real list \<Rightarrow> int \<Rightarrow> error + nat option list" where
  "pd_cut x bins n =
     (if \<not> sorted bins then Inl ValueError
      else if \<not> distinct bins \<and> length bins \<noteq> 2 then Inl ValueError
      else if bins = [] then Inl IndexError
      else if int (length bins) - 1 \<noteq> max n 0 then Inl ValueError
      else Inr (map (cut_id bins) x))"

text \<open>\<^verbatim>\<open>.astype(int)\<close> raises on a missing value.\<close>

definition astype_int :: "nat option list \<Rightarrow> error + nat list" where
  "astype_int xs = (if None \<in> set xs then Inl ValueError else Inr (map the xs))"

text \<open>
  \<^verbatim>\<open>df.groupby("pt_bin").mean().reindex(range(num_bins), fill_value=0)\<close>: one row per
  bin number, the mean of the cells with that number, zero for a number no cell has.
\<close>

definition bin_members :: "nat list \<Rightarrow> cell list \<Rightarrow> nat \<Rightarrow> cell list" where
  "bin_members pt_bin cs i = map snd (filter (\<lambda>p. fst p = i) (zip pt_bin cs))"

definition bin_row :: "cell list \<Rightarrow> gene \<Rightarrow> real" where
  "bin_row ms = (if ms = [] then (\<lambda>g. 0)
                 else (\<lambda>g. sum_list (column ms g) / real (length ms)))"

definition bin_centers :: "real list \<Rightarrow> real list" where
  "bin_centers bins = map (\<lambda>p. (fst p + snd p) / 2) (zip (butlast bins) (tl bins))"

text \<open>
  \<^verbatim>\<open>get_grouped_data(adata_subset, num_bins)\<close>. On an empty subset the minimum and
  the maximum are NaN, so are all edges, and \<^verbatim>\<open>pd.cut\<close> refuses them.

  The edges are the only numbers of the binner whose rounding decides what it does
  (whether \<^verbatim>\<open>pd.cut\<close> raises, and the bin of a cell): the comparisons of
  \<^verbatim>\<open>pd.cut\<close> are exact on the edges it is given. \<open>get_grouped_data_with\<close> therefore
  takes the function that computes the edges as a parameter \<open>ls\<close>, which may be
  \<^verbatim>\<open>np.linspace\<close> with its rounding; \<open>get_grouped_data\<close> is the binner with the
  edges of exact arithmetic.
\<close>

definition get_grouped_data_with ::
  "(real \<Rightarrow> real \<Rightarrow> int \<Rightarrow> error + real list) \<Rightarrow> cell list \<Rightarrow> int
     \<Rightarrow> error + ((gene \<Rightarrow> real) list \<times> real list)" where
  "get_grouped_data_with ls adata_subset num_bins =
     (if adata_subset = [] then Inl ValueError
      else
        let pt = map pseudotime adata_subset in
        case ls (Min (set pt)) (Max (set pt)) (num_bins + 1) of
          Inl e \<Rightarrow> Inl e
        | Inr bins \<Rightarrow>
           (case pd_cut pt bins num_bins of
              Inl e \<Rightarrow> Inl e
            | Inr cats \<Rightarrow>
               (case astype_int cats of
                  Inl e \<Rightarrow> Inl e
                | Inr pt_bin \<Rightarrow>
                    Inr (map (\<lambda>i. bin_row (bin_members pt_bin adata_subset i))
                           [0..<nat num_bins],
                         bin_centers bins))))"

definition get_grouped_data ::
  "cell list \<Rightarrow> int \<Rightarrow> error + ((gene \<Rightarrow> real) list \<times> real list)" where
  "get_grouped_data adata_subset num_bins = get_grouped_data_with linspace adata_subset num_bins"

subsection \<open>The derivative\<close>

text \<open>
  \<^verbatim>\<open>np.gradient(f, x)\<close> with a coordinate array and the default edge order:
  the coordinates must be as many as the samples, there must be at least two samples;
  one-sided differences at both ends, and inside the second-order difference for
  uneven spacing (which is the central difference when the spacing is even).
  The cascade passes the bin centers, which increase strictly; for coordinates that
  repeat, numpy divides by zero without raising, which this definition does not
  represent.
\<close>

definition gradient_at :: "real list \<Rightarrow> real list \<Rightarrow> nat \<Rightarrow> real" where
  "gradient_at f x i =
     (if i = 0 then (f ! 1 - f ! 0) / (x ! 1 - x ! 0)
      else if i = length f - 1 then (f ! i - f ! (i - 1)) / (x ! i - x ! (i - 1))
      else
        let dx1 = x ! i - x ! (i - 1); dx2 = x ! (i + 1) - x ! i;
            a = - dx2 / (dx1 * (dx1 + dx2));
            b = (dx2 - dx1) / (dx1 * dx2);
            c = dx1 / (dx2 * (dx1 + dx2))
        in a * f ! (i - 1) + b * f ! i + c * f ! (i + 1))"

definition np_gradient :: "real list \<Rightarrow> real list \<Rightarrow> error + real list" where
  "np_gradient f x =
     (if length x \<noteq> length f then Inl ValueError
      else if length f < 2 then Inl ValueError
      else Inr (map (gradient_at f x) [0..<length f]))"

subsection \<open>The four stages\<close>

definition tgt_cells :: "anndata \<Rightarrow> string \<Rightarrow> cell list" where
  "tgt_cells adata ct = filter (\<lambda>c. cell_type2 c = ct) (obs adata)"

text \<open>Stage 1: lines 114 to 117.\<close>

definition stage1 :: "config \<Rightarrow> anndata \<Rightarrow> string \<Rightarrow> gene list" where
  "stage1 cfg adata ct =
     filter (\<lambda>g. nan_gt (std (column (tgt_cells adata ct) g)) (min_std cfg) \<and>
                 nan_gt (mean (indicator_list (\<lambda>v. 0 < v) (column (tgt_cells adata ct) g)))
                        (min_fraction_target cfg))
            (var_names adata)"

text \<open>Stage 2: lines 118 to 123.\<close>

definition stage2_frac :: "config \<Rightarrow> anndata \<Rightarrow> string \<Rightarrow> gene \<Rightarrow> real option" where
  "stage2_frac cfg adata ct g =
     mean (indicator_list (\<lambda>c. cell_niche c \<in> set (fibrotic_niches cfg))
             (filter (\<lambda>c. 0 < expr c g) (tgt_cells adata ct)))"

definition stage2 :: "config \<Rightarrow> anndata \<Rightarrow> string \<Rightarrow> gene list \<Rightarrow> gene list" where
  "stage2 cfg adata ct genes =
     filter (\<lambda>g. nan_ge (stage2_frac cfg adata ct g) (fib_fraction_threshold cfg)) genes"

text \<open>Stage 3: lines 124 to 134. The inner loop over the niches of one gene.\<close>

definition niche_cells :: "anndata \<Rightarrow> string \<Rightarrow> string \<Rightarrow> cell list" where
  "niche_cells adata ct niche =
     filter (\<lambda>c. cell_type2 c = ct \<and> cell_niche c = niche) (obs adata)"

definition early_gradient ::
  "smoother \<Rightarrow> config \<Rightarrow> cell list \<Rightarrow> gene \<Rightarrow> error + real option" where
  "early_gradient gf cfg m g =
     (case get_grouped_data m (NUM_BINS cfg) of
        Inl e \<Rightarrow> Inl e
      | Inr (grp, ctr) \<Rightarrow>
         (let smooth = gf 2 (map (\<lambda>row. row g) grp)
          in case np_gradient smooth ctr of
               Inl e \<Rightarrow> Inl e
             | Inr d \<Rightarrow> Inr (mean (py_take (early_phase_bins cfg) d))))"

fun check_niches ::
  "smoother \<Rightarrow> config \<Rightarrow> anndata \<Rightarrow> string \<Rightarrow> gene \<Rightarrow> string list \<Rightarrow> error + bool" where
  "check_niches gf cfg adata ct g [] = Inr True"
| "check_niches gf cfg adata ct g (niche # rest) =
     (let m = niche_cells adata ct niche
      in if length m = 0 then Inr False
         else case early_gradient gf cfg m g of
                Inl e \<Rightarrow> Inl e
              | Inr v \<Rightarrow> if nan_le v 0 then Inr False
                         else check_niches gf cfg adata ct g rest)"

fun stage3 ::
  "smoother \<Rightarrow> config \<Rightarrow> anndata \<Rightarrow> string \<Rightarrow> gene list \<Rightarrow> error + gene list" where
  "stage3 gf cfg adata ct [] = Inr []"
| "stage3 gf cfg adata ct (g # gs) =
     (case check_niches gf cfg adata ct g (fibrotic_niches cfg) of
        Inl e \<Rightarrow> Inl e
      | Inr ok \<Rightarrow>
         (case stage3 gf cfg adata ct gs of
            Inl e \<Rightarrow> Inl e
          | Inr r \<Rightarrow> Inr (if ok then g # r else r)))"

text \<open>Stage 4: lines 135 to 143.\<close>

definition fibm :: "config \<Rightarrow> anndata \<Rightarrow> string \<Rightarrow> cell list" where
  "fibm cfg adata ct =
     filter (\<lambda>c. cell_type2 c = ct \<and> cell_niche c \<in> set (fibrotic_niches cfg)) (obs adata)"

definition remm :: "config \<Rightarrow> anndata \<Rightarrow> string \<Rightarrow> cell list" where
  "remm cfg adata ct =
     filter (\<lambda>c. cell_type2 c = ct \<and> cell_niche c = remote_niche cfg) (obs adata)"

text \<open>
  A quotient of floating-point numbers does not raise: when the denominator is exactly
  zero it is infinite with the sign of the numerator, and NaN for a zero numerator.
  \<open>nan_div_eps\<close> is the quotient \<^verbatim>\<open>a / (b + 1e-9)\<close> of two means, NaN when a mean
  is NaN.
\<close>

datatype ratio = Ratio real | PlusInfinity | MinusInfinity | NotANumber

definition float_div :: "real \<Rightarrow> real \<Rightarrow> ratio" where
  "float_div x y =
     (if y = 0
      then (if 0 < x then PlusInfinity else if x < 0 then MinusInfinity else NotANumber)
      else Ratio (x / y))"

definition nan_div_eps :: "real option \<Rightarrow> real option \<Rightarrow> ratio" where
  "nan_div_eps a b =
     (case a of None \<Rightarrow> NotANumber
      | Some x \<Rightarrow>
         (case b of None \<Rightarrow> NotANumber
          | Some y \<Rightarrow> float_div x (y + 1 / 10 ^ 9)))"

definition ratio_gt :: "ratio \<Rightarrow> real \<Rightarrow> bool" where
  "ratio_gt q b =
     (case q of Ratio r \<Rightarrow> b < r | PlusInfinity \<Rightarrow> True
      | MinusInfinity \<Rightarrow> False | NotANumber \<Rightarrow> False)"

definition fc :: "config \<Rightarrow> anndata \<Rightarrow> string \<Rightarrow> gene \<Rightarrow> ratio" where
  "fc cfg adata ct g =
     nan_div_eps (mean (column (fibm cfg adata ct) g)) (mean (column (remm cfg adata ct) g))"

definition stage4_keep :: "config \<Rightarrow> anndata \<Rightarrow> string \<Rightarrow> gene \<Rightarrow> bool" where
  "stage4_keep cfg adata ct g =
     (if list_all (\<lambda>v. v = 0) (column (remm cfg adata ct) g) then False
      else ratio_gt (fc cfg adata ct g) (fold_change_threshold cfg))"

definition stage4 :: "config \<Rightarrow> anndata \<Rightarrow> string \<Rightarrow> gene list \<Rightarrow> gene list" where
  "stage4 cfg adata ct genes3 = filter (stage4_keep cfg adata ct) genes3"

definition filter_genes_by_conditions ::
  "smoother \<Rightarrow> config \<Rightarrow> anndata \<Rightarrow> string \<Rightarrow> error + gene list" where
  "filter_genes_by_conditions gf cfg adata target_cell_type =
     (case stage3 gf cfg adata target_cell_type
             (stage2 cfg adata target_cell_type (stage1 cfg adata target_cell_type)) of
        Inl e \<Rightarrow> Inl e
      | Inr genes3 \<Rightarrow> Inr (stage4 cfg adata target_cell_type genes3))"

subsection \<open>The scorers\<close>

text \<open>
  \<^verbatim>\<open>KDTree(coords_f).query(p, k=1)[0]\<close>: the Euclidean distance to the nearest
  point of the tree; a tree without points has no neighbour and reports an infinite
  distance (\<open>Unbounded\<close> below). The mean over no cell is NaN (\<open>Undefined\<close>).
\<close>

definition euclid :: "real \<times> real \<Rightarrow> real \<times> real \<Rightarrow> real" where
  "euclid p q = sqrt ((fst p - fst q)\<^sup>2 + (snd p - snd q)\<^sup>2)"

fun nearest :: "(real \<times> real) list \<Rightarrow> real \<times> real \<Rightarrow> real option" where
  "nearest [] p = None"
| "nearest (q # qs) p =
     (case nearest qs p of None \<Rightarrow> Some (euclid p q)
      | Some d \<Rightarrow> Some (min (euclid p q) d))"

datatype distance = Undefined | Unbounded | Dist real

definition avg_distance :: "config \<Rightarrow> anndata \<Rightarrow> string \<Rightarrow> gene \<Rightarrow> distance" where
  "avg_distance cfg adata ct g =
     (let coords_f = map spatial
                       (filter (\<lambda>c. cell_niche c \<in> set (fibrotic_niches cfg)) (obs adata));
          expressing = filter (\<lambda>c. 0 < expr c g) (tgt_cells adata ct)
      in if list_ex (\<lambda>c. 0 < expr c g) (tgt_cells adata ct)
         then (if coords_f = [] then Unbounded
               else Dist (sum_list (map (\<lambda>c. the (nearest coords_f (spatial c))) expressing)
                            / real (length expressing)))
         else Undefined)"

definition calc_avg_distance ::
  "config \<Rightarrow> anndata \<Rightarrow> gene list \<Rightarrow> string \<Rightarrow> (gene \<times> distance) list" where
  "calc_avg_distance cfg adata genes ct = map (\<lambda>g. (g, avg_distance cfg adata ct g)) genes"

definition fib_fraction :: "config \<Rightarrow> anndata \<Rightarrow> string \<Rightarrow> gene \<Rightarrow> real" where
  "fib_fraction cfg adata ct g =
     real (length (filter (\<lambda>c. 0 < expr c g \<and> cell_niche c \<in> set (fibrotic_niches cfg))
                     (tgt_cells adata ct)))
     / real (max (length (filter (\<lambda>c. 0 < expr c g) (tgt_cells adata ct))) 1)"

definition calc_fib_fraction ::
  "config \<Rightarrow> anndata \<Rightarrow> gene list \<Rightarrow> string \<Rightarrow> (gene \<times> real) list" where
  "calc_fib_fraction cfg adata genes ct = map (\<lambda>g. (g, fib_fraction cfg adata ct g)) genes"

text \<open>
  The \<^verbatim>\<open>log2fc\<close> column of the Figure 6A cell (lines 184 and 185): the numerator is
  the mean over \<^verbatim>\<open>adata.obs["cell_type2"]==ct\<close>, the denominator the mean over
  \<^verbatim>\<open>adata.obs["cell_niche"]==remote_niche\<close>, each plus \<open>1e-9\<close>. \<^verbatim>\<open>np.log2\<close>
  gives minus infinity at zero, NaN at a negative number, at minus infinity and at NaN,
  and infinity at infinity.
\<close>

definition log2fc_ratio :: "config \<Rightarrow> anndata \<Rightarrow> string \<Rightarrow> gene \<Rightarrow> ratio" where
  "log2fc_ratio cfg adata ct g =
     (case mean (column (tgt_cells adata ct) g) of
        None \<Rightarrow> NotANumber
      | Some a \<Rightarrow>
         (case mean (column (filter (\<lambda>c. cell_niche c = remote_niche cfg) (obs adata)) g) of
            None \<Rightarrow> NotANumber
          | Some b \<Rightarrow> float_div (a + 1 / 10 ^ 9) (b + 1 / 10 ^ 9)))"

definition np_log2 :: "ratio \<Rightarrow> ratio" where
  "np_log2 q =
     (case q of
        Ratio r \<Rightarrow> if 0 < r then Ratio (log 2 r)
                   else if r = 0 then MinusInfinity else NotANumber
      | PlusInfinity \<Rightarrow> PlusInfinity
      | MinusInfinity \<Rightarrow> NotANumber
      | NotANumber \<Rightarrow> NotANumber)"

definition log2fc :: "config \<Rightarrow> anndata \<Rightarrow> string \<Rightarrow> gene \<Rightarrow> ratio" where
  "log2fc cfg adata ct g = np_log2 (log2fc_ratio cfg adata ct g)"

subsection \<open>Notions of the specification\<close>

text \<open>
  Membership of bin \<open>i\<close> of a list of edges: the lowest edge is inclusive, every later
  edge closes its bin on the right. \<open>bin_edge\<close> is edge \<open>i\<close> of \<open>N\<close> bins of equal
  width over \<open>[lo, hi]\<close> in exact arithmetic.
\<close>

definition in_edges :: "real list \<Rightarrow> nat \<Rightarrow> real \<Rightarrow> bool" where
  "in_edges bins i x =
     (if i = 0 then bins ! 0 \<le> x \<and> x \<le> bins ! 1
      else bins ! i < x \<and> x \<le> bins ! (i + 1))"

definition bin_edge :: "real \<Rightarrow> real \<Rightarrow> int \<Rightarrow> nat \<Rightarrow> real" where
  "bin_edge lo hi N i = lo + real i * ((hi - lo) / real_of_int N)"

text \<open>
  A trajectory is early-rising when the binner and the derivative succeed and the mean
  of the first \<open>early_phase_bins\<close> samples of the derivative of the smoothed trajectory
  is strictly positive.
\<close>

definition early_rising :: "smoother \<Rightarrow> config \<Rightarrow> cell list \<Rightarrow> gene \<Rightarrow> bool" where
  "early_rising gf cfg m g =
     (case get_grouped_data m (NUM_BINS cfg) of
        Inl e \<Rightarrow> False
      | Inr (grp, ctr) \<Rightarrow>
         (case np_gradient (gf 2 (map (\<lambda>row. row g) grp)) ctr of
            Inl e \<Rightarrow> False
          | Inr d \<Rightarrow>
             (let early = take (nat (early_phase_bins cfg)) d
              in early \<noteq> [] \<and> 0 < sum_list early / real (length early))))"

text \<open>
  The populations of the fold-change test as the specification words them: all cells of
  any cell type in the fibrotic-associated niches, and all cells in the remote niche.
\<close>

definition fibrotic_any_type :: "config \<Rightarrow> anndata \<Rightarrow> cell list" where
  "fibrotic_any_type cfg adata =
     filter (\<lambda>c. cell_niche c \<in> set (fibrotic_niches cfg)) (obs adata)"

definition remote_any_type :: "config \<Rightarrow> anndata \<Rightarrow> cell list" where
  "remote_any_type cfg adata = filter (\<lambda>c. cell_niche c = remote_niche cfg) (obs adata)"

text \<open>The distance from a cell to the nearest cell of a fibrotic-associated niche.\<close>

definition nearest_fibrotic :: "config \<Rightarrow> anndata \<Rightarrow> cell \<Rightarrow> real" where
  "nearest_fibrotic cfg adata c =
     Min ((\<lambda>f. euclid (spatial c) (spatial f)) ` set (fibrotic_any_type cfg adata))"

subsection \<open>A small table\<close>

text \<open>
  Two fibrotic-associated niches and a remote one, two cell types, two genes, two bins.
  \<open>GeneA\<close> rises along pseudotime in both fibrotic niches; \<open>GeneB\<close> is never detected.
\<close>

text \<open>The identity stands in for the smoother where a concrete one is needed.\<close>

definition no_smoothing :: smoother where
  "no_smoothing sigma xs = xs"

definition demo_config :: config where
  "demo_config =
     \<lparr> fibrotic_niches = [''Core'', ''Proximal''],
       remote_niche = ''Remote'',
       NUM_BINS = 2,
       min_std = 1 / 10000,
       min_fraction_target = 1 / 10,
       fib_fraction_threshold = 3 / 10,
       early_phase_bins = 2,
       fold_change_threshold = 2 \<rparr>"

definition demo_cell :: "string \<Rightarrow> string \<Rightarrow> real \<Rightarrow> real \<Rightarrow> real \<Rightarrow> cell" where
  "demo_cell t n p x a =
     \<lparr> cell_type2 = t, cell_niche = n, pseudotime = p, spatial = (x, 0),
       expr = (\<lambda>g. if g = ''GeneA'' then a else 0) \<rparr>"

definition demo_table :: anndata where
  "demo_table =
     \<lparr> var_names = [''GeneA'', ''GeneB''],
       obs = [demo_cell ''Fib'' ''Core'' 0 0 4,
              demo_cell ''Fib'' ''Core'' 1 1 14,
              demo_cell ''Fib'' ''Proximal'' 0 2 2,
              demo_cell ''Fib'' ''Proximal'' 2 3 8,
              demo_cell ''Fib'' ''Remote'' 0 10 2,
              demo_cell ''Other'' ''Remote'' 0 11 10,
              demo_cell ''Other'' ''Core'' 0 7 0] \<rparr>"

text \<open>The same table without the cells of the other cell type.\<close>

definition demo_table_fib_only :: anndata where
  "demo_table_fib_only =
     \<lparr> var_names = [''GeneA'', ''GeneB''],
       obs = [demo_cell ''Fib'' ''Core'' 0 0 4,
              demo_cell ''Fib'' ''Core'' 1 1 14,
              demo_cell ''Fib'' ''Proximal'' 0 2 2,
              demo_cell ''Fib'' ''Proximal'' 2 3 8,
              demo_cell ''Fib'' ''Remote'' 0 10 2] \<rparr>"

text \<open>A table where \<open>GeneA\<close> rises in the first fibrotic niche and declines in the second.\<close>

definition declining_table :: anndata where
  "declining_table =
     \<lparr> var_names = [''GeneA'', ''GeneB''],
       obs = [demo_cell ''Fib'' ''Core'' 0 0 4,
              demo_cell ''Fib'' ''Core'' 1 1 14,
              demo_cell ''Fib'' ''Proximal'' 0 2 8,
              demo_cell ''Fib'' ''Proximal'' 2 3 2,
              demo_cell ''Fib'' ''Remote'' 0 10 2] \<rparr>"

text \<open>A table whose first fibrotic niche holds a single cell of the target type.\<close>

definition single_cell_table :: anndata where
  "single_cell_table =
     \<lparr> var_names = [''GeneA'', ''GeneB''],
       obs = [demo_cell ''Fib'' ''Core'' 0 0 4,
              demo_cell ''Fib'' ''Proximal'' 0 2 2,
              demo_cell ''Fib'' ''Proximal'' 2 3 8,
              demo_cell ''Fib'' ''Remote'' 0 10 2] \<rparr>"

section \<open>Auxiliary facts\<close>

lemma less_sqrt_iff: "0 \<le> b \<Longrightarrow> (b < sqrt v) = (b\<^sup>2 < v)"
  by (metis real_sqrt_less_iff real_sqrt_abs abs_of_nonneg)

lemma std_gt_iff:
  "0 \<le> b \<Longrightarrow>
   nan_gt (std xs) b =
     (2 \<le> length xs \<and>
      b\<^sup>2 < sum_list (map (\<lambda>x. (x - sum_list xs / real (length xs))\<^sup>2) xs)
             / real (length xs - 1))"
  by (simp add: std_def nan_gt_def Let_def less_sqrt_iff)

lemma mean_gt_iff:
  "nan_gt (mean xs) b = (xs \<noteq> [] \<and> b < sum_list xs / real (length xs))"
  by (simp add: mean_def nan_gt_def)

lemma filter_tgt_filter:
  "filter P (tgt_cells adata ct) = filter (\<lambda>c. cell_type2 c = ct \<and> P c) (obs adata)"
  by (simp add: tgt_cells_def)

lemma upt2: "[0..<2] = [0, Suc 0]" "[0..<3] = [0, Suc 0, 2]"
  by (simp_all add: upt_rec numeral_2_eq_2 numeral_3_eq_3)

text \<open>The notebook's own parameters: fifty bins, and a window of all fifty.\<close>

lemma notebook_config_bins:
  "0 < early_phase_bins notebook_config"
  "2 \<le> NUM_BINS notebook_config"
  "early_phase_bins notebook_config = NUM_BINS notebook_config"
  by (simp_all add: notebook_config_def)

subsection \<open>The cascade on the small table\<close>

lemmas demo_defs = demo_config_def demo_table_def demo_cell_def demo_table_fib_only_def
  single_cell_table_def tgt_cells_def column_def

lemmas binner_defs = get_grouped_data_def get_grouped_data_with_def linspace_def pd_cut_def cut_id_def
  searchsorted_left_def astype_int_def bin_members_def bin_row_def bin_centers_def

lemmas gradient_defs = no_smoothing_def np_gradient_def gradient_at_def py_take_def mean_def
  bin_row_def column_def

lemma demo_stage1: "stage1 demo_config demo_table ''Fib'' = [''GeneA'']"
  by (simp add: stage1_def demo_defs std_gt_iff mean_gt_iff indicator_list_def
      power2_eq_square)

lemma demo_stage2: "stage2 demo_config demo_table ''Fib'' [''GeneA''] = [''GeneA'']"
  by (simp add: stage2_def stage2_frac_def demo_defs mean_def indicator_list_def nan_ge_def)

lemma demo_core_cells:
  "niche_cells demo_table ''Fib'' ''Core'' =
     [demo_cell ''Fib'' ''Core'' 0 0 4, demo_cell ''Fib'' ''Core'' 1 1 14]"
  by (simp add: niche_cells_def demo_table_def demo_cell_def)

lemma demo_proximal_cells:
  "niche_cells demo_table ''Fib'' ''Proximal'' =
     [demo_cell ''Fib'' ''Proximal'' 0 2 2, demo_cell ''Fib'' ''Proximal'' 2 3 8]"
  by (simp add: niche_cells_def demo_table_def demo_cell_def)

lemma demo_core_binned:
  "get_grouped_data (niche_cells demo_table ''Fib'' ''Core'') (NUM_BINS demo_config)
     = Inr ([bin_row [demo_cell ''Fib'' ''Core'' 0 0 4],
             bin_row [demo_cell ''Fib'' ''Core'' 1 1 14]],
            [1 / 4, 3 / 4])"
  unfolding demo_core_cells
  by (simp add: binner_defs demo_cell_def demo_config_def upt2)

lemma demo_proximal_binned:
  "get_grouped_data (niche_cells demo_table ''Fib'' ''Proximal'') (NUM_BINS demo_config)
     = Inr ([bin_row [demo_cell ''Fib'' ''Proximal'' 0 2 2],
             bin_row [demo_cell ''Fib'' ''Proximal'' 2 3 8]],
            [1 / 2, 3 / 2])"
  unfolding demo_proximal_cells
  by (simp add: binner_defs demo_cell_def demo_config_def upt2)

lemma demo_core_gradient:
  "early_gradient no_smoothing demo_config (niche_cells demo_table ''Fib'' ''Core'') ''GeneA''
     = Inr (Some 20)"
  unfolding early_gradient_def demo_core_binned
  by (simp add: demo_config_def gradient_defs demo_cell_def upt2)

lemma demo_proximal_gradient:
  "early_gradient no_smoothing demo_config (niche_cells demo_table ''Fib'' ''Proximal'') ''GeneA''
     = Inr (Some 6)"
  unfolding early_gradient_def demo_proximal_binned
  by (simp add: demo_config_def gradient_defs demo_cell_def upt2)

lemma demo_nonempty:
  "niche_cells demo_table ''Fib'' ''Core'' \<noteq> []"
  "niche_cells demo_table ''Fib'' ''Proximal'' \<noteq> []"
  by (simp_all add: demo_core_cells demo_proximal_cells)

lemma demo_check_niches:
  "check_niches no_smoothing demo_config demo_table ''Fib'' ''GeneA'' [''Core'', ''Proximal'']
     = Inr True"
  by (simp add: demo_core_gradient demo_proximal_gradient demo_nonempty nan_le_def)

lemma demo_stage3:
  "stage3 no_smoothing demo_config demo_table ''Fib'' [''GeneA''] = Inr [''GeneA'']"
proof -
  have "fibrotic_niches demo_config = [''Core'', ''Proximal'']"
    by (simp add: demo_config_def)
  then show ?thesis
    by (simp add: demo_check_niches del: check_niches.simps)
qed

lemma demo_stage4: "stage4 demo_config demo_table ''Fib'' [''GeneA''] = [''GeneA'']"
  by (simp add: stage4_def stage4_keep_def fc_def fibm_def remm_def nan_div_eps_def
      float_div_def ratio_gt_def mean_def demo_config_def demo_table_def demo_cell_def
      column_def)

lemma demo_cascade:
  "filter_genes_by_conditions no_smoothing demo_config demo_table ''Fib'' = Inr [''GeneA'']"
  unfolding filter_genes_by_conditions_def demo_stage1 demo_stage2 demo_stage3
  by (simp add: demo_stage4)

section \<open>The niche fraction scorer\<close>

text \<open>
  Claim C9. For every gene the niche fraction scorer returns the number of cells of the
  target cell type that express the gene and lie in a fibrotic-associated niche, divided
  by the larger of 1 and the number of cells of the target cell type that express the
  gene; a gene that no cell of the target type expresses gets 0.
\<close>

theorem calc_fib_fraction_spec:
  "calc_fib_fraction cfg adata genes ct =
     map (\<lambda>g. (g,
        real (length (filter (\<lambda>c. cell_type2 c = ct \<and> 0 < expr c g \<and>
                                   cell_niche c \<in> set (fibrotic_niches cfg)) (obs adata)))
        / real (max (length (filter (\<lambda>c. cell_type2 c = ct \<and> 0 < expr c g) (obs adata))) 1)))
       genes
   \<and> (\<forall>g. filter (\<lambda>c. cell_type2 c = ct \<and> 0 < expr c g) (obs adata) = []
          \<longrightarrow> fib_fraction cfg adata ct g = 0)"
proof -
  have a: "\<And>g. fib_fraction cfg adata ct g =
        real (length (filter (\<lambda>c. cell_type2 c = ct \<and> 0 < expr c g \<and>
                                   cell_niche c \<in> set (fibrotic_niches cfg)) (obs adata)))
        / real (max (length (filter (\<lambda>c. cell_type2 c = ct \<and> 0 < expr c g) (obs adata))) 1)"
    by (simp add: fib_fraction_def filter_tgt_filter)
  have b: "\<And>g. filter (\<lambda>c. cell_type2 c = ct \<and> 0 < expr c g) (obs adata) = []
          \<Longrightarrow> filter (\<lambda>c. cell_type2 c = ct \<and> 0 < expr c g \<and>
                                   cell_niche c \<in> set (fibrotic_niches cfg)) (obs adata) = []"
    by (auto simp: filter_empty_conv)
  show ?thesis
    by (simp add: calc_fib_fraction_def a b)
qed

theorem calc_fib_fraction_spec_witness:
  "filter (\<lambda>c. cell_type2 c = ''Fib'' \<and> 0 < expr c ''GeneB'') (obs demo_table) = []
   \<and> fib_fraction demo_config demo_table ''Fib'' ''GeneB'' = 0
   \<and> calc_fib_fraction demo_config demo_table [''GeneA'', ''GeneB''] ''Fib''
       = [(''GeneA'', 4 / 5), (''GeneB'', 0)]"
proof -
  have e: "filter (\<lambda>c. cell_type2 c = ''Fib'' \<and> 0 < expr c ''GeneB'') (obs demo_table) = []"
    by (simp add: demo_defs)
  have z: "fib_fraction demo_config demo_table ''Fib'' ''GeneB'' = 0"
    using calc_fib_fraction_spec [of demo_config demo_table "[]" "''Fib''"] e by blast
  have v: "calc_fib_fraction demo_config demo_table [''GeneA'', ''GeneB''] ''Fib''
       = [(''GeneA'', 4 / 5), (''GeneB'', 0)]"
    by (simp add: calc_fib_fraction_def fib_fraction_def demo_defs)
  show ?thesis using e z v by blast
qed

section \<open>Monotone filtering\<close>

lemma stage3_subseq: "stage3 gf cfg adata ct gs = Inr r \<Longrightarrow> subseq r gs"
proof (induction gs arbitrary: r)
  case Nil
  then show ?case by simp
next
  case (Cons g gs)
  then show ?case
    by (auto split: sum.splits if_splits)
qed

text \<open>
  Claim C4. Whenever the cascade returns a gene list, that list is a subsequence of the
  list of Stage-1 survivors, which is a subsequence of the gene universe
  \<^verbatim>\<open>var_names\<close>: no stage brings back a gene an earlier stage rejected, and the order
  of Stage 1 is kept.
\<close>

theorem cascade_monotone:
  assumes "filter_genes_by_conditions gf cfg adata ct = Inr passed"
  shows "subseq passed (stage1 cfg adata ct)
       \<and> subseq (stage1 cfg adata ct) (var_names adata)
       \<and> set passed \<subseteq> set (stage1 cfg adata ct)
       \<and> set (stage1 cfg adata ct) \<subseteq> set (var_names adata)"
proof -
  obtain genes3
    where g3: "stage3 gf cfg adata ct (stage2 cfg adata ct (stage1 cfg adata ct)) = Inr genes3"
      and p: "passed = stage4 cfg adata ct genes3"
    using assms by (auto simp: filter_genes_by_conditions_def split: sum.splits)
  have "subseq passed genes3"
    by (simp add: p stage4_def)
  moreover have "subseq genes3 (stage2 cfg adata ct (stage1 cfg adata ct))"
    using g3 by (rule stage3_subseq)
  moreover have "subseq (stage2 cfg adata ct (stage1 cfg adata ct)) (stage1 cfg adata ct)"
    by (simp add: stage2_def)
  ultimately have s: "subseq passed (stage1 cfg adata ct)"
    by (blast intro: subseq_order.trans)
  have t: "subseq (stage1 cfg adata ct) (var_names adata)"
    by (simp add: stage1_def)
  have u: "set passed \<subseteq> set (stage1 cfg adata ct)"
  proof
    fix x assume "x \<in> set passed"
    with s show "x \<in> set (stage1 cfg adata ct)"
      by (rule list_emb_set) simp
  qed
  have v: "set (stage1 cfg adata ct) \<subseteq> set (var_names adata)"
    by (auto simp: stage1_def)
  show ?thesis
    using s t u v by blast
qed

theorem cascade_monotone_witness:
  "filter_genes_by_conditions no_smoothing demo_config demo_table ''Fib'' = Inr [''GeneA'']
   \<and> subseq [''GeneA''] (stage1 demo_config demo_table ''Fib'')
   \<and> subseq (stage1 demo_config demo_table ''Fib'') (var_names demo_table)
   \<and> var_names demo_table = [''GeneA'', ''GeneB'']"
  using cascade_monotone [OF demo_cascade] demo_cascade
  by (simp add: demo_table_def)

section \<open>The fold-change test\<close>

lemma nonneg_mean_zero_iff:
  assumes "\<forall>x\<in>set xs. (0::real) \<le> x" "xs \<noteq> []"
  shows "(sum_list xs / real (length xs) = 0) = list_all (\<lambda>v. v = 0) xs"
proof -
  have "(sum_list xs = 0) = (\<forall>x\<in>set xs. x = 0)"
    using assms(1) by (intro sum_list_nonneg_eq_0_iff) simp
  then show ?thesis
    using assms(2) by (simp add: list_all_iff)
qed

text \<open>
  Claim C5. For expression values that are not negative in the remote population of
  Stage 4: a gene whose remote mean is exactly zero is rejected; a gene is kept if and
  only if both means exist, the remote mean is not zero and the fibrotic mean divided by
  the remote mean plus \<open>1e-9\<close>, which is the ratio \<open>fc\<close> that the code computes, is
  strictly above the fold-change threshold. Stage 4 keeps exactly the genes of its
  input that pass this test.
\<close>

theorem stage4_fold_change_guard:
  assumes nonneg: "\<forall>c\<in>set (remm cfg adata ct). 0 \<le> expr c g"
  shows "(mean (column (remm cfg adata ct) g) = Some 0 \<longrightarrow> \<not> stage4_keep cfg adata ct g)
       \<and> (stage4_keep cfg adata ct g \<longleftrightarrow>
            (\<exists>fm rm. mean (column (fibm cfg adata ct) g) = Some fm
                   \<and> mean (column (remm cfg adata ct) g) = Some rm
                   \<and> rm \<noteq> 0
                   \<and> fold_change_threshold cfg < fm / (rm + 1 / 10 ^ 9)))
       \<and> (\<forall>fm rm. mean (column (fibm cfg adata ct) g) = Some fm
                   \<and> mean (column (remm cfg adata ct) g) = Some rm
              \<longrightarrow> fc cfg adata ct g = Ratio (fm / (rm + 1 / 10 ^ 9)))
       \<and> (g \<in> set (stage4 cfg adata ct genes3) \<longleftrightarrow>
            g \<in> set genes3 \<and> stage4_keep cfg adata ct g)"
proof -
  let ?r = "column (remm cfg adata ct) g"
  let ?f = "column (fibm cfg adata ct) g"
  have nn: "\<forall>x\<in>set ?r. 0 \<le> x"
    using nonneg by (auto simp: column_def)
  have d: "fc cfg adata ct g = Ratio (fm / (rm + 1 / 10 ^ 9))"
    if "mean ?f = Some fm \<and> mean ?r = Some rm" for fm rm
  proof -
    from that have rm: "rm = sum_list ?r / real (length ?r)"
      by (simp add: mean_def split: if_splits)
    have "0 \<le> sum_list ?r"
      using nn by (simp add: sum_list_nonneg)
    then have "0 \<le> rm"
      by (simp add: rm)
    moreover have "(0::real) < 1 / 10 ^ 9"
      by simp
    ultimately have "rm + 1 / 10 ^ 9 \<noteq> 0"
      by linarith
    with that show ?thesis
      by (simp add: fc_def nan_div_eps_def float_div_def)
  qed
  have z: "?r \<noteq> [] \<Longrightarrow> (sum_list ?r / real (length ?r) = 0) = list_all (\<lambda>v. v = 0) ?r"
    using nn by (rule nonneg_mean_zero_iff)
  have a: "mean ?r = Some 0 \<longrightarrow> \<not> stage4_keep cfg adata ct g"
    using z by (auto simp: mean_def stage4_keep_def split: if_splits)
  have b: "stage4_keep cfg adata ct g \<longleftrightarrow>
            (\<exists>fm rm. mean ?f = Some fm \<and> mean ?r = Some rm \<and> rm \<noteq> 0
                   \<and> fold_change_threshold cfg < fm / (rm + 1 / 10 ^ 9))"
  proof (cases "?r = []")
    case True
    then show ?thesis by (simp add: stage4_keep_def mean_def)
  next
    case False
    show ?thesis
    proof (cases "?f = []")
      case True
      then show ?thesis
        by (simp add: stage4_keep_def fc_def mean_def nan_div_eps_def ratio_gt_def)
    next
      case f: False
      have "0 \<le> sum_list ?r"
        using nn by (simp add: sum_list_nonneg)
      then have "0 \<le> sum_list ?r / real (length ?r)"
        by simp
      moreover have "(0::real) < 1 / 10 ^ 9"
        by simp
      ultimately have p: "sum_list ?r / real (length ?r) + 1 / 10 ^ 9 \<noteq> 0"
        by linarith
      show ?thesis
        using z [OF False] False f p
        by (simp add: stage4_keep_def fc_def mean_def nan_div_eps_def float_div_def
            ratio_gt_def)
    qed
  qed
  have c: "g \<in> set (stage4 cfg adata ct genes3) \<longleftrightarrow> g \<in> set genes3 \<and> stage4_keep cfg adata ct g"
    by (simp add: stage4_def)
  show ?thesis using a b c d by blast
qed

lemma demo_remote_GeneB:
  "column (remm demo_config demo_table ''Fib'') ''GeneB'' = [0]"
  by (simp add: remm_def demo_defs)

theorem stage4_fold_change_guard_witness:
  "list_all (\<lambda>c. 0 \<le> expr c ''GeneB'') (remm demo_config demo_table ''Fib'')
   \<and> mean (column (remm demo_config demo_table ''Fib'') ''GeneB'') = Some 0
   \<and> \<not> stage4_keep demo_config demo_table ''Fib'' ''GeneB''
   \<and> list_all (\<lambda>c. 0 \<le> expr c ''GeneA'') (remm demo_config demo_table ''Fib'')
   \<and> mean (column (fibm demo_config demo_table ''Fib'') ''GeneA'') = Some 7
   \<and> mean (column (remm demo_config demo_table ''Fib'') ''GeneA'') = Some 2
   \<and> fc demo_config demo_table ''Fib'' ''GeneA'' = Ratio (7 / (2 + 1 / 10 ^ 9))
   \<and> stage4_keep demo_config demo_table ''Fib'' ''GeneA''"
proof -
  have h: "\<forall>c\<in>set (remm demo_config demo_table ''Fib''). 0 \<le> expr c ''GeneB''"
    by (simp add: remm_def demo_defs)
  have m: "mean (column (remm demo_config demo_table ''Fib'') ''GeneB'') = Some 0"
    by (simp add: demo_remote_GeneB mean_def)
  have b: "\<not> stage4_keep demo_config demo_table ''Fib'' ''GeneB''"
    using m stage4_fold_change_guard [OF h, of "[]"] by blast
  have h': "\<forall>c\<in>set (remm demo_config demo_table ''Fib''). 0 \<le> expr c ''GeneA''"
    by (simp add: remm_def demo_defs)
  have m': "mean (column (fibm demo_config demo_table ''Fib'') ''GeneA'') = Some 7"
    "mean (column (remm demo_config demo_table ''Fib'') ''GeneA'') = Some 2"
    by (simp_all add: fibm_def remm_def mean_def demo_defs)
  have t: "fold_change_threshold demo_config < 7 / (2 + 1 / 10 ^ 9)"
    by (simp add: demo_config_def)
  have a: "fc demo_config demo_table ''Fib'' ''GeneA'' = Ratio (7 / (2 + 1 / 10 ^ 9))
           \<and> stage4_keep demo_config demo_table ''Fib'' ''GeneA''"
  proof -
    have nz: "(2::real) \<noteq> 0" by simp
    show ?thesis
      using m' t nz stage4_fold_change_guard [OF h', of "[]"] by blast
  qed
  show ?thesis
    using h h' m m' a b by (simp add: list_all_iff)
qed

text \<open>
  Claim C1, as amended. The fibrotic population of Stage 4 is the cells of the target
  cell type in the fibrotic-associated niches and the remote population is the cells of
  the target cell type in the remote niche; the ratio is taken of their two means.
  Stage 4 is restricted to the target cell type like Stages 1 to 3: two tables with the
  same cells of the target type give the same Stage-4 result.
\<close>

theorem stage4_target_cells_only:
  "fibm cfg adata ct = filter (\<lambda>c. cell_niche c \<in> set (fibrotic_niches cfg)) (tgt_cells adata ct)
   \<and> remm cfg adata ct = filter (\<lambda>c. cell_niche c = remote_niche cfg) (tgt_cells adata ct)
   \<and> fc cfg adata ct g =
       nan_div_eps (mean (column (fibm cfg adata ct) g)) (mean (column (remm cfg adata ct) g))
   \<and> (tgt_cells adata ct = tgt_cells adata' ct \<longrightarrow>
        stage4 cfg adata ct genes3 = stage4 cfg adata' ct genes3)"
proof -
  have f: "\<And>a. fibm cfg a ct = filter (\<lambda>c. cell_niche c \<in> set (fibrotic_niches cfg)) (tgt_cells a ct)"
    by (simp add: fibm_def tgt_cells_def)
  have r: "\<And>a. remm cfg a ct = filter (\<lambda>c. cell_niche c = remote_niche cfg) (tgt_cells a ct)"
    by (simp add: remm_def tgt_cells_def)
  have "tgt_cells adata ct = tgt_cells adata' ct \<Longrightarrow>
        stage4_keep cfg adata ct = stage4_keep cfg adata' ct"
    by (rule ext) (simp add: stage4_keep_def fc_def f r)
  then show ?thesis
    using f r by (auto simp: stage4_def fc_def)
qed

theorem stage4_target_cells_only_witness:
  "tgt_cells demo_table ''Fib'' = tgt_cells demo_table_fib_only ''Fib''
   \<and> obs demo_table \<noteq> obs demo_table_fib_only
   \<and> stage4 demo_config demo_table ''Fib'' [''GeneA'']
       = stage4 demo_config demo_table_fib_only ''Fib'' [''GeneA'']"
proof -
  have h: "tgt_cells demo_table ''Fib'' = tgt_cells demo_table_fib_only ''Fib''"
    by (simp add: demo_defs)
  have d: "obs demo_table \<noteq> obs demo_table_fib_only"
    by (simp add: demo_defs)
  show ?thesis
    using h d stage4_target_cells_only [of demo_config demo_table "''Fib''" "''GeneA''"
        demo_table_fib_only "[''GeneA'']"]
    by blast
qed

text \<open>
  Claim C1 as stated fails on the small table: the means over the cells of any type
  differ from the means that Stage 4 uses, and \<open>GeneA\<close>, which Stage 4 keeps, would
  fail the threshold with them.
\<close>

theorem stage4_any_cell_type_counterexample:
  "mean (column (fibm demo_config demo_table ''Fib'') ''GeneA'') = Some 7
   \<and> mean (column (fibrotic_any_type demo_config demo_table) ''GeneA'') = Some (28 / 5)
   \<and> mean (column (remm demo_config demo_table ''Fib'') ''GeneA'') = Some 2
   \<and> mean (column (remote_any_type demo_config demo_table) ''GeneA'') = Some 6
   \<and> stage4_keep demo_config demo_table ''Fib'' ''GeneA''
   \<and> \<not> fold_change_threshold demo_config < (28 / 5) / (6 + 1 / 10 ^ 9)"
  by (simp add: fibm_def remm_def fibrotic_any_type_def remote_any_type_def mean_def
      stage4_keep_def fc_def nan_div_eps_def float_div_def ratio_gt_def
      demo_config_def demo_table_def demo_cell_def column_def)

section \<open>The spatial distance scorer\<close>

lemma nearest_Min:
  "qs \<noteq> [] \<Longrightarrow> nearest qs p = Some (Min ((\<lambda>q. euclid p q) ` set qs))"
proof (induction qs)
  case Nil
  then show ?case by simp
next
  case (Cons q qs)
  show ?case
  proof (cases "qs = []")
    case True
    then show ?thesis by simp
  next
    case False
    then show ?thesis
      using Cons.IH by simp
  qed
qed

lemma euclid_on_row: "euclid (a, y) (b, y) = \<bar>a - b\<bar>"
  by (simp add: euclid_def)

text \<open>
  Claim C7. A gene that no cell of the target type expresses gets the undefined
  distance, which is not the distance zero. A gene that some cell of the target type
  expresses gets, when some cell lies in a fibrotic-associated niche, the mean over the
  expressing cells of the target type of the distance to the nearest such cell.
  The scorer reports this value for every gene of its list.
\<close>

theorem avg_distance_spec:
  "((\<forall>c\<in>set (obs adata). cell_type2 c = ct \<longrightarrow> \<not> 0 < expr c g) \<longrightarrow>
       avg_distance cfg adata ct g = Undefined \<and> avg_distance cfg adata ct g \<noteq> Dist 0)
   \<and> ((\<exists>c\<in>set (obs adata). cell_type2 c = ct \<and> 0 < expr c g)
        \<and> fibrotic_any_type cfg adata \<noteq> [] \<longrightarrow>
       avg_distance cfg adata ct g =
         Dist (sum_list (map (nearest_fibrotic cfg adata)
                           (filter (\<lambda>c. cell_type2 c = ct \<and> 0 < expr c g) (obs adata)))
               / real (length (filter (\<lambda>c. cell_type2 c = ct \<and> 0 < expr c g) (obs adata)))))
   \<and> calc_avg_distance cfg adata genes ct = map (\<lambda>g. (g, avg_distance cfg adata ct g)) genes"
proof -
  let ?fs = "filter (\<lambda>c. cell_niche c \<in> set (fibrotic_niches cfg)) (obs adata)"
  have a: "(\<forall>c\<in>set (obs adata). cell_type2 c = ct \<longrightarrow> \<not> 0 < expr c g) \<Longrightarrow>
       avg_distance cfg adata ct g = Undefined"
    by (auto simp: avg_distance_def list_ex_iff tgt_cells_def)
  have n: "?fs \<noteq> [] \<Longrightarrow>
      the (nearest (map spatial ?fs) (spatial c)) = nearest_fibrotic cfg adata c" for c
    by (simp add: nearest_Min nearest_fibrotic_def fibrotic_any_type_def image_image)
  have b: "(\<exists>c\<in>set (obs adata). cell_type2 c = ct \<and> 0 < expr c g) \<Longrightarrow> ?fs \<noteq> [] \<Longrightarrow>
       avg_distance cfg adata ct g =
         Dist (sum_list (map (nearest_fibrotic cfg adata)
                           (filter (\<lambda>c. cell_type2 c = ct \<and> 0 < expr c g) (obs adata)))
               / real (length (filter (\<lambda>c. cell_type2 c = ct \<and> 0 < expr c g) (obs adata))))"
    using n by (auto simp: avg_distance_def list_ex_iff tgt_cells_def Let_def)
  show ?thesis
    using a b by (auto simp: calc_avg_distance_def fibrotic_any_type_def)
qed

theorem avg_distance_spec_witness:
  "\<not> list_ex (\<lambda>c. cell_type2 c = ''Fib'' \<and> 0 < expr c ''GeneB'') (obs demo_table)
   \<and> avg_distance demo_config demo_table ''Fib'' ''GeneB'' = Undefined
   \<and> (\<exists>c\<in>set (obs demo_table). cell_type2 c = ''Fib'' \<and> 0 < expr c ''GeneA'')
   \<and> fibrotic_any_type demo_config demo_table \<noteq> []
   \<and> avg_distance demo_config demo_table ''Fib'' ''GeneA'' = Dist (3 / 5)
   \<and> sum_list (map (nearest_fibrotic demo_config demo_table)
                 (filter (\<lambda>c. cell_type2 c = ''Fib'' \<and> 0 < expr c ''GeneA'') (obs demo_table)))
       / real (length (filter (\<lambda>c. cell_type2 c = ''Fib'' \<and> 0 < expr c ''GeneA'')
                         (obs demo_table))) = 3 / 5"
proof -
  have h1: "\<forall>c\<in>set (obs demo_table). cell_type2 c = ''Fib'' \<longrightarrow> \<not> 0 < expr c ''GeneB''"
    by (simp add: demo_defs)
  have h2: "\<exists>c\<in>set (obs demo_table). cell_type2 c = ''Fib'' \<and> 0 < expr c ''GeneA''"
    by (simp add: demo_defs)
  have h3: "fibrotic_any_type demo_config demo_table \<noteq> []"
    by (simp add: fibrotic_any_type_def demo_defs)
  have v: "avg_distance demo_config demo_table ''Fib'' ''GeneA'' = Dist (3 / 5)"
    by (simp add: avg_distance_def demo_defs euclid_on_row)
  show ?thesis
    using h1 h2 h3 v
      avg_distance_spec [where adata = demo_table and ct = "''Fib''" and g = "''GeneB''"
        and cfg = demo_config and genes = "[]"]
      avg_distance_spec [where adata = demo_table and ct = "''Fib''" and g = "''GeneA''"
        and cfg = demo_config and genes = "[]"]
    by (simp add: list_ex_iff)
qed


section \<open>The pseudotime binner\<close>

lemma filter_less_upt: "j \<le> k \<Longrightarrow> filter (\<lambda>i. i < j) [0..<k] = [0..<j]"
proof (induction k)
  case 0
  then show ?case by simp
next
  case (Suc k)
  show ?case
  proof (cases "j = Suc k")
    case True
    have "filter (\<lambda>i. i < Suc k) [0..<Suc k] = [0..<Suc k]"
      by (rule filter_True) simp
    with True show ?thesis by simp
  next
    case False
    with Suc.prems have "j \<le> k" by simp
    with Suc.IH show ?thesis by simp
  qed
qed

lemma searchsorted_count:
  assumes "j \<le> length bins"
    and below: "\<forall>i<j. bins ! i < x"
    and above: "\<forall>i. j \<le> i \<and> i < length bins \<longrightarrow> x \<le> bins ! i"
  shows "searchsorted_left bins x = j"
proof -
  have "filter (\<lambda>i. bins ! i < x) [0..<length bins] = filter (\<lambda>i. i < j) [0..<length bins]"
  proof (rule filter_cong [OF refl])
    fix i assume "i \<in> set [0..<length bins]"
    then have il: "i < length bins" by simp
    show "(bins ! i < x) = (i < j)"
    proof (cases "i < j")
      case True
      then show ?thesis using below by simp
    next
      case False
      then have "x \<le> bins ! i" using above il by simp
      with False show ?thesis by simp
    qed
  qed
  then have "length (filter (\<lambda>i. bins ! i < x) [0..<length bins]) = j"
    using assms(1) by (simp add: filter_less_upt)
  moreover have "filter (\<lambda>b. b < x) (map (\<lambda>i. bins ! i) [0..<length bins])
                   = map (\<lambda>i. bins ! i) (filter (\<lambda>i. bins ! i < x) [0..<length bins])"
    by (simp add: filter_map o_def)
  ultimately show ?thesis
    by (simp add: searchsorted_left_def map_nth)
qed

lemma strict_edges_less:
  "sorted_wrt (<) bins \<Longrightarrow> i < j \<Longrightarrow> j < length bins \<Longrightarrow> bins ! i < (bins ! j :: real)"
  by (rule sorted_wrt_nth_less)

lemma strict_edges_le:
  assumes "sorted_wrt (<) bins" "i \<le> j" "j < length bins"
  shows "bins ! i \<le> (bins ! j :: real)"
proof (cases "i = j")
  case True
  then show ?thesis by simp
next
  case False
  with assms(2) have "i < j" by simp
  then show ?thesis
    using strict_edges_less [OF assms(1) _ assms(3)] by (simp add: less_imp_le)
qed

lemma cut_id_in_edges:
  assumes ss: "sorted_wrt (<) bins" and len: "length bins = Suc n" and n: "0 < n"
    and lo: "bins ! 0 \<le> x" and hi: "x \<le> bins ! n"
  shows "\<exists>i<n. cut_id bins x = Some i \<and> in_edges bins i x"
proof -
  have ne: "bins \<noteq> []" using len by auto
  have h: "hd bins = bins ! 0" using ne by (simp add: hd_conv_nth)
  show ?thesis
  proof (cases "x = bins ! 0")
    case True
    have "bins ! 0 \<le> bins ! 1"
      using strict_edges_le [OF ss, of 0 1] len n by simp
    then have "in_edges bins 0 x"
      using True by (simp add: in_edges_def)
    moreover have "cut_id bins x = Some 0"
      using True n len by (simp add: cut_id_def h)
    ultimately show ?thesis using n by blast
  next
    case False
    define j where "j = (LEAST i. x \<le> bins ! i)"
    have xl: "bins ! 0 < x" using False lo by simp
    have above: "x \<le> bins ! j"
      unfolding j_def using hi by (rule LeastI)
    have jn: "j \<le> n"
      unfolding j_def using hi by (rule Least_le)
    have below: "\<forall>i<j. bins ! i < x"
    proof (intro allI impI)
      fix i assume "i < j"
      then have "\<not> x \<le> bins ! i"
        unfolding j_def by (rule not_less_Least)
      then show "bins ! i < x" by simp
    qed
    have j0: "0 < j"
    proof (rule ccontr)
      assume "\<not> 0 < j"
      then have "j = 0" by simp
      with above xl show False by simp
    qed
    have up: "\<forall>i. j \<le> i \<and> i < length bins \<longrightarrow> x \<le> bins ! i"
    proof (intro allI impI)
      fix i assume i: "j \<le> i \<and> i < length bins"
      then have "bins ! j \<le> bins ! i"
        using strict_edges_le [OF ss, of j i] by simp
      with above show "x \<le> bins ! i" by simp
    qed
    have ss': "searchsorted_left bins x = j"
      using jn len by (intro searchsorted_count below up) simp
    have c: "cut_id bins x = Some (j - 1)"
      using False j0 jn len by (simp add: cut_id_def h ss')
    have prev: "bins ! (j - 1) < x" using below j0 by simp
    have "in_edges bins (j - 1) x"
    proof (cases "j - 1 = 0")
      case True
      then have "j = 1" using j0 by simp
      then show ?thesis
        using above xl by (simp add: in_edges_def)
    next
      case False
      then show ?thesis
        using prev above j0 by (simp add: in_edges_def)
    qed
    moreover have "j - 1 < n" using j0 jn by simp
    ultimately show ?thesis using c by blast
  qed
qed

lemma in_edges_less:
  assumes "sorted_wrt (<) bins" "j < length bins" "in_edges bins i x" "in_edges bins j x"
  shows "\<not> i < j"
proof
  assume ij: "i < j"
  then have j0: "j \<noteq> 0" by simp
  have "x \<le> bins ! (i + 1)"
    using assms(3) by (simp add: in_edges_def split: if_splits)
  also have "\<dots> \<le> bins ! j"
    using ij assms(2) by (intro strict_edges_le [OF assms(1)]) simp_all
  also have "\<dots> < x"
    using assms(4) j0 by (simp add: in_edges_def)
  finally show False by simp
qed

lemma in_edges_unique:
  assumes "sorted_wrt (<) bins" "i < length bins" "j < length bins"
    "in_edges bins i x" "in_edges bins j x"
  shows "i = j"
  using in_edges_less [OF assms(1,3,4,5)] in_edges_less [OF assms(1,2,5,4)]
  by (simp add: linorder_neq_iff)

lemma bin_members_map:
  "bin_members (map f cs) cs i = filter (\<lambda>c. f c = i) cs"
  unfolding bin_members_def
  by (induction cs) simp_all

lemma bin_centers_nth:
  assumes "length bins = Suc n"
  shows "bin_centers bins = map (\<lambda>i. (bins ! i + bins ! Suc i) / 2) [0..<n]"
proof -
  have b: "bins = map (\<lambda>i. bins ! i) [0..<Suc n]"
    using assms map_nth [of bins] by simp
  have t: "tl (map (\<lambda>i. bins ! i) [0..<Suc n]) = map (\<lambda>i. bins ! Suc i) [0..<n]"
    by (simp add: map_tl [symmetric] map_Suc_upt [symmetric] del: upt_Suc)
  have bl: "butlast (map (\<lambda>i. bins ! i) [0..<Suc n]) = map (\<lambda>i. bins ! i) [0..<n]"
    by simp
  have "bin_centers (map (\<lambda>i. bins ! i) [0..<Suc n])
          = map (\<lambda>i. (bins ! i + bins ! Suc i) / 2) [0..<n]"
    unfolding bin_centers_def t bl
    by (simp add: zip_map_map zip_same_conv_map)
  with b show ?thesis by simp
qed

lemma two_equal_edges:
  assumes "length bins = 2" "\<not> distinct bins"
  shows "bins ! 1 = (bins ! 0 :: real)"
proof -
  from assms(1) obtain a b where "bins = [a, b]"
    by (cases bins; cases "tl bins") auto
  with assms(2) show ?thesis by simp
qed

lemma get_grouped_data_with_edges:
  assumes ne: "adata_subset \<noteq> []" and n: "1 \<le> N"
    and lo: "lo = Min (pseudotime ` set adata_subset)"
    and hi: "hi = Max (pseudotime ` set adata_subset)"
    and ls: "ls lo hi (N + 1) = Inr bins"
    and len: "length bins = Suc (nat N)"
    and first: "bins ! 0 = lo" and last: "bins ! nat N = hi"
    and sorted: "sorted bins" and dist: "distinct bins \<or> N = 1"
  shows "get_grouped_data_with ls adata_subset N =
           Inr (map (\<lambda>i. bin_row (filter (\<lambda>c. in_edges bins i (pseudotime c)) adata_subset))
                  [0..<nat N],
                map (\<lambda>i. (bins ! i + bins ! Suc i) / 2) [0..<nat N])"
    and "\<forall>c\<in>set adata_subset. \<exists>!i. i < nat N \<and> in_edges bins i (pseudotime c)"
proof -
  let ?pt = "map pseudotime adata_subset"
  have n0: "0 < nat N" using n by simp
  have range: "lo \<le> pseudotime c \<and> pseudotime c \<le> hi" if "c \<in> set adata_subset" for c
    using that by (simp add: lo hi)
  have cut: "\<exists>i<nat N. cut_id bins (pseudotime c) = Some i \<and> in_edges bins i (pseudotime c)"
    if c: "c \<in> set adata_subset" for c
  proof (cases "distinct bins")
    case True
    with sorted have "sorted_wrt (<) bins" by (simp add: strict_sorted_iff)
    then show ?thesis
      using cut_id_in_edges [OF _ len n0, of "pseudotime c"] range [OF c] first last by simp
  next
    case False
    with dist have n1: "N = 1" by simp
    then have l2: "length bins = 2" using len by simp
    have e: "bins ! 1 = bins ! 0" using l2 False by (rule two_equal_edges)
    have "lo = hi" using e first last n1 by simp
    then have x: "pseudotime c = bins ! 0" using range [OF c] first by simp
    have "bins \<noteq> []" using l2 by auto
    then have h: "hd bins = bins ! 0" by (simp add: hd_conv_nth)
    have "cut_id bins (pseudotime c) = Some 0"
      using x l2 by (simp add: cut_id_def h)
    moreover have "in_edges bins 0 (pseudotime c)"
      using x e by (simp add: in_edges_def)
    ultimately show ?thesis using n0 by blast
  qed
  have uniq: "i = j" if "i < nat N" "j < nat N" "in_edges bins i x" "in_edges bins j x"
    for i j x
  proof (cases "distinct bins")
    case True
    with sorted have "sorted_wrt (<) bins" by (simp add: strict_sorted_iff)
    then show ?thesis
      using that len by (intro in_edges_unique [of bins i j x]) simp_all
  next
    case False
    with dist have "nat N = 1" by simp
    with that show ?thesis by simp
  qed
  show "\<forall>c\<in>set adata_subset. \<exists>!i. i < nat N \<and> in_edges bins i (pseudotime c)"
  proof
    fix c assume c: "c \<in> set adata_subset"
    from cut [OF c] obtain i where "i < nat N" "in_edges bins i (pseudotime c)" by blast
    then show "\<exists>!i. i < nat N \<and> in_edges bins i (pseudotime c)"
      using uniq by blast
  qed
  have the_cut: "(the (cut_id bins (pseudotime c)) = i) = in_edges bins i (pseudotime c)"
    if c: "c \<in> set adata_subset" and i: "i < nat N" for c i
  proof -
    from cut [OF c] obtain k where k: "k < nat N" "cut_id bins (pseudotime c) = Some k"
      "in_edges bins k (pseudotime c)" by blast
    show ?thesis
    proof
      assume "the (cut_id bins (pseudotime c)) = i"
      then have "k = i" by (simp only: k(2) option.sel)
      then show "in_edges bins i (pseudotime c)" using k(3) by simp
    next
      assume "in_edges bins i (pseudotime c)"
      with k(1,3) i have "k = i" by (intro uniq)
      then show "the (cut_id bins (pseudotime c)) = i" by (simp only: k(2) option.sel)
    qed
  qed
  have pc: "pd_cut ?pt bins N = Inr (map (cut_id bins) ?pt)"
  proof -
    have "bins \<noteq> []" using len by auto
    moreover have "int (length bins) - 1 = max N 0" using len n by simp
    moreover have "distinct bins \<or> length bins = 2" using dist len by auto
    ultimately show ?thesis
      using sorted by (auto simp: pd_cut_def)
  qed
  have nn: "None \<notin> set (map (cut_id bins) ?pt)"
  proof
    assume "None \<in> set (map (cut_id bins) ?pt)"
    then obtain c where c: "c \<in> set adata_subset" "cut_id bins (pseudotime c) = None"
      by auto
    from cut [OF c(1)] c(2) show False by simp
  qed
  have ai: "astype_int (map (cut_id bins) ?pt)
              = Inr (map (\<lambda>c. the (cut_id bins (pseudotime c))) adata_subset)"
    using nn by (simp add: astype_int_def o_def)
  have mem: "map (\<lambda>i. bin_row (bin_members
                 (map (\<lambda>c. the (cut_id bins (pseudotime c))) adata_subset) adata_subset i))
               [0..<nat N]
           = map (\<lambda>i. bin_row (filter (\<lambda>c. in_edges bins i (pseudotime c)) adata_subset))
               [0..<nat N]"
  proof (rule map_cong [OF refl])
    fix i assume "i \<in> set [0..<nat N]"
    then have i: "i < nat N" by simp
    have "filter (\<lambda>c. the (cut_id bins (pseudotime c)) = i) adata_subset
            = filter (\<lambda>c. in_edges bins i (pseudotime c)) adata_subset"
      by (rule filter_cong [OF refl]) (simp add: the_cut i)
    then show "bin_row (bin_members
                 (map (\<lambda>c. the (cut_id bins (pseudotime c))) adata_subset) adata_subset i)
             = bin_row (filter (\<lambda>c. in_edges bins i (pseudotime c)) adata_subset)"
      by (simp only: bin_members_map)
  qed
  have mm: "Min (set ?pt) = lo" "Max (set ?pt) = hi"
    by (simp_all add: lo hi)
  have bc: "bin_centers bins = map (\<lambda>i. (bins ! i + bins ! Suc i) / 2) [0..<nat N]"
    using len by (rule bin_centers_nth)
  show "get_grouped_data_with ls adata_subset N =
           Inr (map (\<lambda>i. bin_row (filter (\<lambda>c. in_edges bins i (pseudotime c)) adata_subset))
                  [0..<nat N],
                map (\<lambda>i. (bins ! i + bins ! Suc i) / 2) [0..<nat N])"
    unfolding get_grouped_data_with_def Let_def mm ls pc ai sum.case mem bc
    using ne by (simp only: if_False)
qed

lemma linspace_edges:
  "1 \<le> N \<Longrightarrow> linspace lo hi (N + 1) = Inr (map (bin_edge lo hi N) [0..<Suc (nat N)])"
proof -
  assume n: "1 \<le> N"
  then have "nat (N + 1) = Suc (nat N)" by simp
  with n show ?thesis
    by (simp add: linspace_def bin_edge_def del: upt_Suc)
qed

lemma bin_edge_strict_mono:
  assumes "lo < hi" "1 \<le> N" "i < j"
  shows "bin_edge lo hi N i < bin_edge lo hi N j"
proof -
  have w: "0 < (hi - lo) / real_of_int N"
    using assms by simp
  have "real i < real j" using assms by simp
  then have "real i * ((hi - lo) / real_of_int N) < real j * ((hi - lo) / real_of_int N)"
    using w by (rule mult_strict_right_mono)
  then show ?thesis by (simp add: bin_edge_def)
qed

lemma bin_edge_width:
  "bin_edge lo hi N (i + 1) - bin_edge lo hi N i = (hi - lo) / real_of_int N"
proof -
  define w where "w = (hi - lo) / real_of_int N"
  have "lo + real (i + 1) * w - (lo + real i * w) = w"
    by (simp add: distrib_right)
  then show ?thesis
    by (simp only: bin_edge_def w_def)
qed

lemma edges_strict_sorted:
  assumes "lo < hi" "1 \<le> N"
  shows "sorted_wrt (<) (map (bin_edge lo hi N) [0..<k])"
proof -
  have "sorted_wrt (\<lambda>i j. bin_edge lo hi N i < bin_edge lo hi N j) [0..<k]"
    by (rule sorted_wrt_mono_rel [OF _ sorted_wrt_upt])
       (simp add: bin_edge_strict_mono [OF assms])
  then show ?thesis by (simp add: sorted_wrt_map)
qed

text \<open>In exact arithmetic the edges are what the binner theorem asks of them.\<close>

lemma linspace_exact:
  assumes n: "1 \<le> N" and le: "lo \<le> hi" and d: "lo < hi \<or> N = 1"
  shows "\<exists>edges. linspace lo hi (N + 1) = Inr edges
           \<and> length edges = Suc (nat N) \<and> edges ! 0 = lo \<and> edges ! nat N = hi
           \<and> sorted edges \<and> (distinct edges \<or> N = 1)
           \<and> (\<forall>i<nat N. edges ! (i + 1) - edges ! i = (hi - lo) / real_of_int N)"
proof -
  define edges where "edges = map (bin_edge lo hi N) [0..<Suc (nat N)]"
  have l: "linspace lo hi (N + 1) = Inr edges"
    unfolding edges_def by (rule linspace_edges [OF n])
  have len: "length edges = Suc (nat N)"
    by (simp add: edges_def del: upt_Suc)
  have nth: "edges ! i = bin_edge lo hi N i" if "i \<le> nat N" for i
    using that unfolding edges_def by (simp add: nth_map_upt del: upt_Suc)
  have e0: "edges ! 0 = lo" by (simp add: nth bin_edge_def)
  have eN: "edges ! nat N = hi" using n by (simp add: nth bin_edge_def)
  have w: "\<forall>i<nat N. edges ! (i + 1) - edges ! i = (hi - lo) / real_of_int N"
  proof (intro allI impI)
    fix i assume "i < nat N"
    then have "edges ! (i + 1) = bin_edge lo hi N (i + 1)" "edges ! i = bin_edge lo hi N i"
      by (simp_all add: nth)
    then show "edges ! (i + 1) - edges ! i = (hi - lo) / real_of_int N"
      by (simp only: bin_edge_width)
  qed
  have s: "sorted edges \<and> (distinct edges \<or> N = 1)"
  proof (cases "lo < hi")
    case True
    have "sorted_wrt (<) edges"
      unfolding edges_def by (rule edges_strict_sorted [OF True n])
    then show ?thesis by (simp add: strict_sorted_iff)
  next
    case False
    with d le have n1: "N = 1" and eq: "lo = hi" by simp_all
    have "edges = [lo, lo]"
      by (simp add: edges_def n1 eq bin_edge_def)
    then show ?thesis using n1 by simp
  qed
  show ?thesis using l len e0 eN w s by blast
qed

text \<open>
  Claim C3, as amended. Take a non-empty cell subset and a bin count \<open>N\<close> of at least
  one, and let the edge function return \<open>N + 1\<close> edges that do not decrease, the
  first being the smallest and the last the largest pseudotime of the subset, and that
  are pairwise distinct unless \<open>N\<close> is one. Then the binner returns \<open>N\<close> rows and
  \<open>N\<close> centers; every cell lies in exactly one of the \<open>N\<close> bins these edges delimit
  (lowest edge inclusive, later edges closed on the right); row \<open>i\<close> is the mean
  expression of the cells of bin \<open>i\<close> for every gene, and zero for every gene when
  the bin holds no cell; center \<open>i\<close> is the midpoint of bin \<open>i\<close>; the smallest and the
  largest pseudotime lie within the edges of the first and of the last bin. In exact
  arithmetic the edges of \<open>linspace\<close> are such edges, of equal width, as soon as the
  smallest pseudotime is below the largest or \<open>N\<close> is one.
\<close>

theorem get_grouped_data_spec:
  assumes ne: "adata_subset \<noteq> []" and n: "1 \<le> N"
    and lo: "lo = Min (pseudotime ` set adata_subset)"
    and hi: "hi = Max (pseudotime ` set adata_subset)"
    and ls: "ls lo hi (N + 1) = Inr bins"
    and len: "length bins = Suc (nat N)"
    and first: "bins ! 0 = lo" and last: "bins ! nat N = hi"
    and sorted: "sorted bins" and dist: "distinct bins \<or> N = 1"
  shows "(\<exists>grp centers.
           get_grouped_data_with ls adata_subset N = Inr (grp, centers)
         \<and> length grp = nat N \<and> length centers = nat N
         \<and> (\<forall>i<nat N.
               centers ! i = (bins ! i + bins ! (i + 1)) / 2
             \<and> (\<forall>g. (grp ! i) g =
                   (if filter (\<lambda>c. in_edges bins i (pseudotime c)) adata_subset = [] then 0
                    else sum_list (map (\<lambda>c. expr c g)
                                     (filter (\<lambda>c. in_edges bins i (pseudotime c)) adata_subset))
                         / real (length (filter (\<lambda>c. in_edges bins i (pseudotime c))
                                           adata_subset))))))
       \<and> (\<forall>c\<in>set adata_subset. \<exists>!i. i < nat N \<and> in_edges bins i (pseudotime c))
       \<and> bins ! 0 \<le> lo \<and> lo \<le> bins ! 1 \<and> bins ! (nat N - 1) \<le> hi \<and> hi \<le> bins ! nat N
       \<and> (lo < hi \<or> N = 1 \<longrightarrow>
            (\<exists>edges. linspace lo hi (N + 1) = Inr edges
               \<and> length edges = Suc (nat N) \<and> edges ! 0 = lo \<and> edges ! nat N = hi
               \<and> sorted edges \<and> (distinct edges \<or> N = 1)
               \<and> (\<forall>i<nat N. edges ! (i + 1) - edges ! i = (hi - lo) / real_of_int N)))"
proof -
  let ?cells = "\<lambda>i. filter (\<lambda>c. in_edges bins i (pseudotime c)) adata_subset"
  let ?grp = "map (\<lambda>i. bin_row (?cells i)) [0..<nat N]"
  let ?centers = "map (\<lambda>i. (bins ! i + bins ! Suc i) / 2) [0..<nat N]"
  note g = get_grouped_data_with_edges [where ls = ls and bins = bins, OF assms]
  have rows: "\<forall>i<nat N.
               ?centers ! i = (bins ! i + bins ! (i + 1)) / 2
             \<and> (\<forall>g. (?grp ! i) g =
                   (if ?cells i = [] then 0
                    else sum_list (map (\<lambda>c. expr c g) (?cells i)) / real (length (?cells i))))"
  proof (intro allI impI conjI)
    fix i assume i: "i < nat N"
    show "?centers ! i = (bins ! i + bins ! (i + 1)) / 2"
      using i by simp
    fix g
    show "(?grp ! i) g =
            (if ?cells i = [] then 0
             else sum_list (map (\<lambda>c. expr c g) (?cells i)) / real (length (?cells i)))"
      using i by (simp add: bin_row_def column_def)
  qed
  have a: "\<exists>grp centers.
           get_grouped_data_with ls adata_subset N = Inr (grp, centers)
         \<and> length grp = nat N \<and> length centers = nat N
         \<and> (\<forall>i<nat N.
               centers ! i = (bins ! i + bins ! (i + 1)) / 2
             \<and> (\<forall>g. (grp ! i) g =
                   (if ?cells i = [] then 0
                    else sum_list (map (\<lambda>c. expr c g) (?cells i)) / real (length (?cells i)))))"
  proof (intro exI conjI)
    show "get_grouped_data_with ls adata_subset N = Inr (?grp, ?centers)" by (rule g(1))
    show "length ?grp = nat N" by simp
    show "length ?centers = nat N" by simp
    show "\<forall>i<nat N.
               ?centers ! i = (bins ! i + bins ! (i + 1)) / 2
             \<and> (\<forall>g. (?grp ! i) g =
                   (if ?cells i = [] then 0
                    else sum_list (map (\<lambda>c. expr c g) (?cells i)) / real (length (?cells i))))"
      by (rule rows)
  qed
  have le: "lo \<le> hi"
    using ne by (simp add: lo hi)
  have n0: "0 < nat N" using n by simp
  have s01: "bins ! 0 \<le> bins ! 1" "bins ! (nat N - 1) \<le> bins ! nat N"
    using sorted len n0 by (simp_all add: sorted_iff_nth_mono)
  have b: "bins ! 0 \<le> lo \<and> lo \<le> bins ! 1 \<and> bins ! (nat N - 1) \<le> hi \<and> hi \<le> bins ! nat N"
    using s01 first last by simp
  have c: "lo < hi \<or> N = 1 \<longrightarrow>
            (\<exists>edges. linspace lo hi (N + 1) = Inr edges
               \<and> length edges = Suc (nat N) \<and> edges ! 0 = lo \<and> edges ! nat N = hi
               \<and> sorted edges \<and> (distinct edges \<or> N = 1)
               \<and> (\<forall>i<nat N. edges ! (i + 1) - edges ! i = (hi - lo) / real_of_int N))"
    using linspace_exact [OF n le] by blast
  show ?thesis
    using a g(2) b c by blast
qed

lemma single_core_cells:
  "niche_cells single_cell_table ''Fib'' ''Core'' = [demo_cell ''Fib'' ''Core'' 0 0 4]"
  by (simp add: niche_cells_def single_cell_table_def demo_cell_def)

lemma demo_proximal_range:
  "Min (pseudotime ` set (niche_cells demo_table ''Fib'' ''Proximal'')) = 0"
  "Max (pseudotime ` set (niche_cells demo_table ''Fib'' ''Proximal'')) = 2"
  by (simp_all add: demo_proximal_cells demo_cell_def)

theorem get_grouped_data_spec_witness:
  "niche_cells demo_table ''Fib'' ''Proximal'' \<noteq> [] \<and> (1::int) \<le> 2
   \<and> 0 = Min (pseudotime ` set (niche_cells demo_table ''Fib'' ''Proximal''))
   \<and> 2 = Max (pseudotime ` set (niche_cells demo_table ''Fib'' ''Proximal''))
   \<and> linspace 0 2 (2 + 1) = Inr [0, 1, 2]
   \<and> sorted [0, 1, 2 :: real] \<and> distinct [0, 1, 2 :: real]
   \<and> (\<exists>grp centers.
         get_grouped_data (niche_cells demo_table ''Fib'' ''Proximal'') 2 = Inr (grp, centers)
       \<and> length grp = 2 \<and> centers = [1 / 2, 3 / 2]
       \<and> (grp ! 0) ''GeneA'' = 2 \<and> (grp ! 1) ''GeneA'' = 8)
   \<and> niche_cells single_cell_table ''Fib'' ''Core'' \<noteq> [] \<and> (1::int) \<le> 1
   \<and> 0 = Min (pseudotime ` set (niche_cells single_cell_table ''Fib'' ''Core''))
   \<and> 0 = Max (pseudotime ` set (niche_cells single_cell_table ''Fib'' ''Core''))
   \<and> linspace 0 0 (1 + 1) = Inr [0, 0]
   \<and> sorted [0, 0 :: real] \<and> \<not> distinct [0, 0 :: real]
   \<and> (\<exists>grp centers.
         get_grouped_data (niche_cells single_cell_table ''Fib'' ''Core'') 1 = Inr (grp, centers)
       \<and> length grp = 1 \<and> centers = [0] \<and> (grp ! 0) ''GeneA'' = 4)"
proof -
  have h1: "niche_cells demo_table ''Fib'' ''Proximal'' \<noteq> []"
    by (rule demo_nonempty)
  have h2: "(1::int) \<le> 2" by simp
  have h3: "0 = Min (pseudotime ` set (niche_cells demo_table ''Fib'' ''Proximal''))"
    by (simp add: demo_proximal_range)
  have h4: "2 = Max (pseudotime ` set (niche_cells demo_table ''Fib'' ''Proximal''))"
    by (simp add: demo_proximal_range)
  have h5: "linspace 0 2 (2 + 1) = Inr [0, 1, 2]"
    by (simp add: linspace_def upt_rec numeral_3_eq_3)
  have h6: "length [0, 1, 2 :: real] = Suc (nat 2)" by simp
  have h7: "[0, 1, 2 :: real] ! 0 = 0" "[0, 1, 2 :: real] ! nat 2 = 2"
    by (simp_all add: numeral_2_eq_2)
  have h8: "sorted [0, 1, 2 :: real]" "distinct [0, 1, 2 :: real]" by simp_all
  have h9: "distinct [0, 1, 2 :: real] \<or> (2::int) = 1" by simp
  from get_grouped_data_spec [where ls = linspace and bins = "[0, 1, 2]",
      OF h1 h2 h3 h4 h5 h6 h7 h8(1) h9]
  obtain grp centers
    where g: "get_grouped_data_with linspace (niche_cells demo_table ''Fib'' ''Proximal'') 2
                = Inr (grp, centers)"
      and l: "length grp = nat 2"
    by blast
  have b: "get_grouped_data (niche_cells demo_table ''Fib'' ''Proximal'') 2
     = Inr ([bin_row [demo_cell ''Fib'' ''Proximal'' 0 2 2],
             bin_row [demo_cell ''Fib'' ''Proximal'' 2 3 8]],
            [1 / 2, 3 / 2])"
    using demo_proximal_binned by (simp add: demo_config_def)
  have v: "centers = [1 / 2, 3 / 2] \<and> (grp ! 0) ''GeneA'' = 2 \<and> (grp ! 1) ''GeneA'' = 8"
    using g b by (auto simp: get_grouped_data_def bin_row_def column_def demo_cell_def)
  have a: "\<exists>grp centers.
         get_grouped_data (niche_cells demo_table ''Fib'' ''Proximal'') 2 = Inr (grp, centers)
       \<and> length grp = 2 \<and> centers = [1 / 2, 3 / 2]
       \<and> (grp ! 0) ''GeneA'' = 2 \<and> (grp ! 1) ''GeneA'' = 8"
    using g l v by (simp add: get_grouped_data_def)
  have k1: "niche_cells single_cell_table ''Fib'' ''Core'' \<noteq> []"
    by (simp add: single_core_cells)
  have k2: "(1::int) \<le> 1" by simp
  have k3: "0 = Min (pseudotime ` set (niche_cells single_cell_table ''Fib'' ''Core''))"
    "0 = Max (pseudotime ` set (niche_cells single_cell_table ''Fib'' ''Core''))"
    by (simp_all add: single_core_cells demo_cell_def)
  have k5: "linspace 0 0 (1 + 1) = Inr [0, 0]"
    by (simp add: linspace_def upt2)
  have k6: "length [0, 0 :: real] = Suc (nat 1)" by simp
  have k7: "[0, 0 :: real] ! 0 = 0" "[0, 0 :: real] ! nat 1 = 0" by simp_all
  have k8: "sorted [0, 0 :: real]" by simp
  have k9: "distinct [0, 0 :: real] \<or> (1::int) = 1" by simp
  from get_grouped_data_spec [where ls = linspace and bins = "[0, 0]",
      OF k1 k2 k3 k5 k6 k7 k8 k9]
  obtain grp' centers'
    where g': "get_grouped_data_with linspace (niche_cells single_cell_table ''Fib'' ''Core'') 1
                = Inr (grp', centers')"
      and l': "length grp' = nat 1"
    by blast
  have b': "get_grouped_data (niche_cells single_cell_table ''Fib'' ''Core'') 1
     = Inr ([bin_row [demo_cell ''Fib'' ''Core'' 0 0 4]], [0])"
    unfolding single_core_cells
    by (simp add: binner_defs demo_cell_def Let_def upt2)
  have v': "centers' = [0] \<and> (grp' ! 0) ''GeneA'' = 4"
    using g' b' by (auto simp: get_grouped_data_def bin_row_def column_def demo_cell_def)
  have a': "\<exists>grp centers.
         get_grouped_data (niche_cells single_cell_table ''Fib'' ''Core'') 1 = Inr (grp, centers)
       \<and> length grp = 1 \<and> centers = [0] \<and> (grp ! 0) ''GeneA'' = 4"
    using g' l' v' by (simp add: get_grouped_data_def)
  have nd: "\<not> distinct [0, 0 :: real]" by simp
  show ?thesis
    using h1 h2 h3 h4 h5 h8 a k1 k2 k3 k5 k8 nd a' by blast
qed

text \<open>
  Claim C3 as stated fails on a subset of one cell: it is not empty, and the binner
  with two bins raises on it.
\<close>

theorem get_grouped_data_single_cell_counterexample:
  "niche_cells single_cell_table ''Fib'' ''Core'' \<noteq> []
   \<and> get_grouped_data (niche_cells single_cell_table ''Fib'' ''Core'') 2 = Inl ValueError"
  unfolding single_core_cells
  by (simp add: get_grouped_data_def get_grouped_data_with_def linspace_def pd_cut_def
      demo_cell_def upt2)

subsection \<open>Degenerate subsets\<close>

lemma grouped_lengths:
  assumes "get_grouped_data m nb = Inr (grp, ctr)"
  shows "length ctr = nat nb \<and> length grp = nat nb"
proof -
  from assms obtain bins cats
    where pc: "pd_cut (map pseudotime m) bins nb = Inr cats"
      and c: "ctr = bin_centers bins" and g: "length grp = nat nb"
    by (auto simp: get_grouped_data_def get_grouped_data_with_def Let_def
        split: if_splits sum.splits)
  from pc have "int (length bins) - 1 = max nb 0"
    by (simp add: pd_cut_def split: if_splits)
  then have "length bins - 1 = nat nb" by linarith
  then show ?thesis
    using c g by (simp add: bin_centers_def)
qed

lemma np_gradient_short: "length x < 2 \<Longrightarrow> \<exists>e. np_gradient f x = Inl e"
  by (simp add: np_gradient_def)

lemma nonpositive_bins_binner:
  assumes ne: "m \<noteq> []" and nb: "nb \<le> 0"
  shows "\<exists>e. get_grouped_data m nb = Inl e"
proof -
  consider "nb < - 1" | "nb = - 1" | "nb = 0"
    using nb by linarith
  then show ?thesis
  proof cases
    case 1
    then show ?thesis
      unfolding get_grouped_data_def get_grouped_data_with_def Let_def using ne by (simp add: linspace_def)
  next
    case 2
    then show ?thesis
      unfolding get_grouped_data_def get_grouped_data_with_def Let_def using ne
      by (simp add: linspace_def pd_cut_def)
  next
    case 3
    define lo where "lo = Min (set (map pseudotime m))"
    have cn: "cut_id [lo] x = None" for x
      by (simp add: cut_id_def searchsorted_left_def)
    obtain c where "c \<in> set m" using ne by (cases m) auto
    then have "cut_id [lo] (pseudotime c) \<in> set (map (cut_id [lo]) (map pseudotime m))"
      by simp
    then have "None \<in> set (map (cut_id [lo]) (map pseudotime m))"
      by (simp only: cn)
    then have "astype_int (map (cut_id [lo]) (map pseudotime m)) = Inl ValueError"
      by (simp only: astype_int_def if_True)
    then show ?thesis
      unfolding get_grouped_data_def get_grouped_data_with_def Let_def lo_def [symmetric] using ne 3
      by (simp add: linspace_def pd_cut_def)
  qed
qed

lemma replicate_not_distinct: "2 \<le> k \<Longrightarrow> \<not> distinct (replicate k x)"
proof -
  assume "2 \<le> k"
  then obtain k' where "k = Suc (Suc k')"
    by (metis Suc_le_D numeral_2_eq_2 Suc_le_mono)
  then show ?thesis by simp
qed

lemma degenerate_binner:
  assumes ne: "m \<noteq> []" and eq: "Min (pseudotime ` set m) = Max (pseudotime ` set m)"
  shows "nb \<noteq> 1 \<Longrightarrow> \<exists>e. get_grouped_data m nb = Inl e"
    and "2 \<le> nb \<Longrightarrow> get_grouped_data m nb = Inl ValueError"
proof -
  define lo where "lo = Min (pseudotime ` set m)"
  have mm: "Min (set (map pseudotime m)) = lo" "Max (set (map pseudotime m)) = lo"
    using eq by (simp_all add: lo_def)
  show big: "get_grouped_data m nb = Inl ValueError" if "2 \<le> nb"
  proof -
    have "linspace lo lo (nb + 1) = Inr (replicate (nat (nb + 1)) lo)"
      using that by (simp add: linspace_def map_replicate_const)
    moreover have "pd_cut (map pseudotime m) (replicate (nat (nb + 1)) lo) nb = Inl ValueError"
    proof -
      have "\<not> distinct (replicate (nat (nb + 1)) lo)"
        using that by (intro replicate_not_distinct) simp
      moreover have "length (replicate (nat (nb + 1)) lo) \<noteq> 2"
        using that by simp
      ultimately show ?thesis
        by (simp add: pd_cut_def sorted_replicate)
    qed
    ultimately show ?thesis
      unfolding get_grouped_data_def get_grouped_data_with_def Let_def mm using ne by simp
  qed
  show "\<exists>e. get_grouped_data m nb = Inl e" if nb1: "nb \<noteq> 1"
  proof (cases "nb \<le> 0")
    case True
    with ne show ?thesis by (rule nonpositive_bins_binner)
  next
    case False
    with nb1 have "2 \<le> nb" by simp
    then show ?thesis using big by simp
  qed
qed

lemma degenerate_early_gradient:
  assumes ne: "m \<noteq> []" and eq: "Min (pseudotime ` set m) = Max (pseudotime ` set m)"
  shows "\<exists>e. early_gradient gf cfg m g = Inl e"
proof (cases "get_grouped_data m (NUM_BINS cfg)")
  case (Inl e)
  then show ?thesis by (simp add: early_gradient_def)
next
  case (Inr r)
  obtain grp ctr where r: "r = (grp, ctr)" by (cases r)
  have one: "NUM_BINS cfg = 1"
    using degenerate_binner(1) [OF ne eq, of "NUM_BINS cfg"] Inr by auto
  have "length ctr = 1"
    using grouped_lengths [of m "NUM_BINS cfg" grp ctr] Inr r one by simp
  then have "\<exists>e. np_gradient (gf 2 (map (\<lambda>row. row g) grp)) ctr = Inl e"
    by (intro np_gradient_short) simp
  then show ?thesis
    using Inr r by (auto simp: early_gradient_def)
qed

lemma check_niches_append:
  "check_niches gf cfg adata ct g (pre @ rest) =
     (case check_niches gf cfg adata ct g pre of
        Inl e \<Rightarrow> Inl e
      | Inr ok \<Rightarrow> if ok then check_niches gf cfg adata ct g rest else Inr False)"
  by (induction pre) (auto simp: Let_def split: sum.splits)

lemma stage3_error:
  "g \<in> set gs \<Longrightarrow> check_niches gf cfg adata ct g (fibrotic_niches cfg) = Inl e \<Longrightarrow>
   \<exists>e'. stage3 gf cfg adata ct gs = Inl e'"
  by (induction gs) (auto split: sum.splits)

text \<open>
  Claim C10. On a non-empty subset whose smallest pseudotime equals its largest the
  binner raises, for every bin count other than one (for two bins or more, with the
  error of repeated bin edges). Stage 3 guards only against the empty intersection: when
  a gene that survived Stage 2 reaches a fibrotic niche whose intersection with the
  target cell type is such a subset, the whole cascade ends in an error instead of
  rejecting the gene.
\<close>

theorem degenerate_subset_aborts:
  assumes ne: "m \<noteq> []" and eq: "Min (pseudotime ` set m) = Max (pseudotime ` set m)"
  shows "(num_bins \<noteq> 1 \<longrightarrow> (\<exists>e. get_grouped_data m num_bins = Inl e))
       \<and> (2 \<le> num_bins \<longrightarrow> get_grouped_data m num_bins = Inl ValueError)
       \<and> (m = niche_cells adata ct niche
          \<and> fibrotic_niches cfg = pre @ niche # post
          \<and> check_niches gf cfg adata ct g pre = Inr True
          \<and> g \<in> set (stage2 cfg adata ct (stage1 cfg adata ct))
          \<longrightarrow> (\<exists>e. filter_genes_by_conditions gf cfg adata ct = Inl e))"
proof (intro conjI impI)
  show "\<exists>e. get_grouped_data m num_bins = Inl e" if "num_bins \<noteq> 1"
    using that by (rule degenerate_binner(1) [OF ne eq])
  show "get_grouped_data m num_bins = Inl ValueError" if "2 \<le> num_bins"
    using that by (rule degenerate_binner(2) [OF ne eq])
  assume a: "m = niche_cells adata ct niche
          \<and> fibrotic_niches cfg = pre @ niche # post
          \<and> check_niches gf cfg adata ct g pre = Inr True
          \<and> g \<in> set (stage2 cfg adata ct (stage1 cfg adata ct))"
  obtain e where e: "early_gradient gf cfg m g = Inl e"
    using degenerate_early_gradient [OF ne eq] by blast
  have "check_niches gf cfg adata ct g (niche # post) = Inl e"
    using a ne e by (simp add: Let_def)
  then have "check_niches gf cfg adata ct g (fibrotic_niches cfg) = Inl e"
    using a by (simp add: check_niches_append del: check_niches.simps)
  then obtain e' where
    "stage3 gf cfg adata ct (stage2 cfg adata ct (stage1 cfg adata ct)) = Inl e'"
    using a stage3_error by blast
  then show "\<exists>e. filter_genes_by_conditions gf cfg adata ct = Inl e"
    by (simp add: filter_genes_by_conditions_def)
qed

lemma single_stage1: "stage1 demo_config single_cell_table ''Fib'' = [''GeneA'']"
  by (simp add: stage1_def demo_defs std_gt_iff mean_gt_iff indicator_list_def
      power2_eq_square)

lemma single_stage2: "stage2 demo_config single_cell_table ''Fib'' [''GeneA''] = [''GeneA'']"
  by (simp add: stage2_def stage2_frac_def demo_defs mean_def indicator_list_def nan_ge_def)

theorem degenerate_subset_aborts_witness:
  "niche_cells single_cell_table ''Fib'' ''Core'' \<noteq> []
   \<and> Min (pseudotime ` set (niche_cells single_cell_table ''Fib'' ''Core''))
       = Max (pseudotime ` set (niche_cells single_cell_table ''Fib'' ''Core''))
   \<and> (2::int) \<noteq> 1 \<and> (2::int) \<le> 2
   \<and> fibrotic_niches demo_config = [] @ ''Core'' # [''Proximal'']
   \<and> check_niches no_smoothing demo_config single_cell_table ''Fib'' ''GeneA'' [] = Inr True
   \<and> ''GeneA'' \<in> set (stage2 demo_config single_cell_table ''Fib''
                        (stage1 demo_config single_cell_table ''Fib''))
   \<and> get_grouped_data (niche_cells single_cell_table ''Fib'' ''Core'') 2 = Inl ValueError
   \<and> (\<exists>e. filter_genes_by_conditions no_smoothing demo_config single_cell_table ''Fib''
             = Inl e)"
proof -
  have h1: "niche_cells single_cell_table ''Fib'' ''Core'' \<noteq> []"
    by (simp add: single_core_cells)
  have h2: "Min (pseudotime ` set (niche_cells single_cell_table ''Fib'' ''Core''))
       = Max (pseudotime ` set (niche_cells single_cell_table ''Fib'' ''Core''))"
    by (simp add: single_core_cells)
  have h3: "fibrotic_niches demo_config = [] @ ''Core'' # [''Proximal'']"
    by (simp add: demo_config_def)
  have h4: "''GeneA'' \<in> set (stage2 demo_config single_cell_table ''Fib''
                        (stage1 demo_config single_cell_table ''Fib''))"
    by (simp add: single_stage1 single_stage2)
  have h5: "check_niches no_smoothing demo_config single_cell_table ''Fib'' ''GeneA'' [] = Inr True"
    by simp
  show ?thesis
    using h1 h2 h3 h4 h5
      degenerate_subset_aborts [OF h1 h2, of 2 single_cell_table "''Fib''" "''Core''"
        demo_config "[]" "[''Proximal'']" no_smoothing "''GeneA''"]
    by simp
qed


section \<open>Early induction in every fibrotic niche\<close>

lemma np_gradient_length:
  "np_gradient f x = Inr d \<Longrightarrow> length d = length x \<and> 2 \<le> length x"
  by (auto simp: np_gradient_def split: if_splits)

lemma early_gradient_rising:
  assumes "0 < early_phase_bins cfg" "early_gradient gf cfg m g = Inr v"
  shows "nan_le v 0 = (\<not> early_rising gf cfg m g)"
proof -
  from assms(2) obtain grp ctr d
    where gd: "get_grouped_data m (NUM_BINS cfg) = Inr (grp, ctr)"
      and ng: "np_gradient (gf 2 (map (\<lambda>row. row g) grp)) ctr = Inr d"
      and v: "v = mean (py_take (early_phase_bins cfg) d)"
    by (auto simp: early_gradient_def Let_def split: sum.splits)
  have "2 \<le> length d" using np_gradient_length [OF ng] by simp
  then have ne: "take (nat (early_phase_bins cfg)) d \<noteq> []"
    using assms(1) by auto
  have pt: "py_take (early_phase_bins cfg) d = take (nat (early_phase_bins cfg)) d"
    using assms(1) by (simp add: py_take_def)
  show ?thesis
    using ne by (simp add: early_rising_def gd ng v pt mean_def nan_le_def Let_def not_less)
qed

lemma check_niches_iff:
  assumes "0 < early_phase_bins cfg"
  shows "check_niches gf cfg adata ct g ns = Inr ok \<Longrightarrow>
         ok = (\<forall>n\<in>set ns. niche_cells adata ct n \<noteq> []
                 \<and> early_rising gf cfg (niche_cells adata ct n) g)"
proof (induction ns arbitrary: ok)
  case Nil
  then show ?case by auto
next
  case (Cons n ns)
  show ?case
  proof (cases "niche_cells adata ct n = []")
    case True
    with Cons.prems show ?thesis by simp
  next
    case False
    with Cons.prems obtain v where v: "early_gradient gf cfg (niche_cells adata ct n) g = Inr v"
      by (auto simp: Let_def split: sum.splits)
    note r = early_gradient_rising [OF assms v]
    show ?thesis
    proof (cases "nan_le v 0")
      case True
      with Cons.prems False v r show ?thesis by (simp add: Let_def)
    next
      case nl: False
      with Cons.prems False v have "check_niches gf cfg adata ct g ns = Inr ok"
        by (simp add: Let_def)
      from Cons.IH [OF this] nl r False show ?thesis by simp
    qed
  qed
qed

lemma stage3_filter:
  assumes "0 < early_phase_bins cfg"
  shows "stage3 gf cfg adata ct gs = Inr r \<Longrightarrow>
         r = filter (\<lambda>g. \<forall>n\<in>set (fibrotic_niches cfg). niche_cells adata ct n \<noteq> []
                            \<and> early_rising gf cfg (niche_cells adata ct n) g) gs"
proof (induction gs arbitrary: r)
  case Nil
  then show ?case by simp
next
  case (Cons g gs)
  from Cons.prems obtain ok r'
    where c: "check_niches gf cfg adata ct g (fibrotic_niches cfg) = Inr ok"
      and s: "stage3 gf cfg adata ct gs = Inr r'"
      and r: "r = (if ok then g # r' else r')"
    by (auto split: sum.splits)
  show ?case
    using check_niches_iff [OF assms c] Cons.IH [OF s] r by simp
qed

lemma early_gradient_error:
  "early_gradient gf cfg m g = Inl e \<Longrightarrow> \<not> early_rising gf cfg m g"
  by (auto simp: early_gradient_def early_rising_def Let_def split: sum.splits)

lemma check_niches_pass:
  assumes "0 < early_phase_bins cfg"
    and "niche_cells adata ct n \<noteq> []" "early_rising gf cfg (niche_cells adata ct n) g"
  shows "check_niches gf cfg adata ct g (n # rest) = check_niches gf cfg adata ct g rest"
proof (cases "early_gradient gf cfg (niche_cells adata ct n) g")
  case (Inl e)
  with assms(3) show ?thesis using early_gradient_error by blast
next
  case (Inr v)
  from early_gradient_rising [OF assms(1) Inr] assms(3) have "\<not> nan_le v 0" by simp
  with Inr assms(2) show ?thesis by (simp add: Let_def)
qed

lemma check_niches_fail:
  assumes "0 < early_phase_bins cfg"
    and "\<not> (niche_cells adata ct n \<noteq> [] \<and> early_rising gf cfg (niche_cells adata ct n) g)"
  shows "check_niches gf cfg adata ct g (n # rest) =
           (if niche_cells adata ct n = [] then Inr False
            else case early_gradient gf cfg (niche_cells adata ct n) g of
                   Inl e \<Rightarrow> Inl e | Inr v \<Rightarrow> Inr False)"
proof (cases "niche_cells adata ct n = []")
  case True
  then show ?thesis by simp
next
  case False
  with assms(2) have nr: "\<not> early_rising gf cfg (niche_cells adata ct n) g" by simp
  show ?thesis
  proof (cases "early_gradient gf cfg (niche_cells adata ct n) g")
    case (Inl e)
    with False show ?thesis by (simp add: Let_def)
  next
    case (Inr v)
    from early_gradient_rising [OF assms(1) Inr] nr have "nan_le v 0" by simp
    with Inr False show ?thesis by (simp add: Let_def)
  qed
qed

lemma check_niches_first_failure:
  assumes "0 < early_phase_bins cfg"
  shows "check_niches gf cfg adata ct g niches =
           (case dropWhile (\<lambda>n. niche_cells adata ct n \<noteq> []
                                \<and> early_rising gf cfg (niche_cells adata ct n) g) niches of
              [] \<Rightarrow> Inr True
            | n # rest \<Rightarrow>
                if niche_cells adata ct n = [] then Inr False
                else case early_gradient gf cfg (niche_cells adata ct n) g of
                       Inl e \<Rightarrow> Inl e | Inr v \<Rightarrow> Inr False)"
proof (induction niches)
  case Nil
  show ?case by simp
next
  case (Cons n niches)
  show ?case
  proof (cases "niche_cells adata ct n \<noteq> [] \<and> early_rising gf cfg (niche_cells adata ct n) g")
    case True
    then have c: "check_niches gf cfg adata ct g (n # niches)
                    = check_niches gf cfg adata ct g niches"
      using check_niches_pass [OF assms] by blast
    have d: "dropWhile (\<lambda>n. niche_cells adata ct n \<noteq> []
                    \<and> early_rising gf cfg (niche_cells adata ct n) g) (n # niches)
             = dropWhile (\<lambda>n. niche_cells adata ct n \<noteq> []
                    \<and> early_rising gf cfg (niche_cells adata ct n) g) niches"
      using True by simp
    show ?thesis
      unfolding c d by (rule Cons.IH)
  next
    case False
    then have d: "dropWhile (\<lambda>n. niche_cells adata ct n \<noteq> []
                    \<and> early_rising gf cfg (niche_cells adata ct n) g) (n # niches) = n # niches"
      by auto
    show ?thesis
      unfolding d list.case by (rule check_niches_fail [OF assms False])
  qed
qed

lemma check_niches_true_iff:
  assumes "0 < early_phase_bins cfg"
  shows "(check_niches gf cfg adata ct g niches = Inr True) =
           (\<forall>n\<in>set niches. niche_cells adata ct n \<noteq> []
                 \<and> early_rising gf cfg (niche_cells adata ct n) g)"
proof
  assume "check_niches gf cfg adata ct g niches = Inr True"
  from check_niches_iff [OF assms this]
  show "\<forall>n\<in>set niches. niche_cells adata ct n \<noteq> []
                 \<and> early_rising gf cfg (niche_cells adata ct n) g"
    by simp
next
  assume a: "\<forall>n\<in>set niches. niche_cells adata ct n \<noteq> []
                 \<and> early_rising gf cfg (niche_cells adata ct n) g"
  then have "dropWhile (\<lambda>n. niche_cells adata ct n \<noteq> []
                                \<and> early_rising gf cfg (niche_cells adata ct n) g) niches = []"
    by simp
  then show "check_niches gf cfg adata ct g niches = Inr True"
    by (simp only: check_niches_first_failure [OF assms] list.case)
qed

lemma check_niches_returns:
  assumes "0 < early_phase_bins cfg"
    and "\<forall>n\<in>set niches. niche_cells adata ct n = []
            \<or> (\<exists>v. early_gradient gf cfg (niche_cells adata ct n) g = Inr v)"
  shows "\<exists>ok. check_niches gf cfg adata ct g niches = Inr ok"
proof (cases "dropWhile (\<lambda>n. niche_cells adata ct n \<noteq> []
                                \<and> early_rising gf cfg (niche_cells adata ct n) g) niches")
  case Nil
  then have "check_niches gf cfg adata ct g niches = Inr True"
    by (simp only: check_niches_first_failure [OF assms(1)] list.case)
  then show ?thesis by blast
next
  case (Cons n rest)
  then have "n \<in> set niches"
    by (metis list.set_intros(1) set_dropWhileD)
  with assms(2) have "niche_cells adata ct n = []
            \<or> (\<exists>v. early_gradient gf cfg (niche_cells adata ct n) g = Inr v)"
    by blast
  then show ?thesis
    unfolding check_niches_first_failure [OF assms(1)] Cons
    by auto
qed

lemma stage3_returns_iff:
  assumes "0 < early_phase_bins cfg"
  shows "(stage3 gf cfg adata ct gs = Inr r) =
           ((\<forall>g\<in>set gs. \<exists>ok. check_niches gf cfg adata ct g (fibrotic_niches cfg) = Inr ok)
            \<and> r = filter (\<lambda>g. \<forall>n\<in>set (fibrotic_niches cfg). niche_cells adata ct n \<noteq> []
                               \<and> early_rising gf cfg (niche_cells adata ct n) g) gs)"
proof (induction gs arbitrary: r)
  case Nil
  show ?case by auto
next
  case (Cons g gs)
  let ?P = "\<lambda>g. \<forall>n\<in>set (fibrotic_niches cfg). niche_cells adata ct n \<noteq> []
                               \<and> early_rising gf cfg (niche_cells adata ct n) g"
  show ?case
  proof (cases "check_niches gf cfg adata ct g (fibrotic_niches cfg)")
    case (Inl e)
    then show ?thesis by simp
  next
    case (Inr ok)
    have ok: "ok = ?P g"
      using check_niches_iff [OF assms Inr] .
    show ?thesis
    proof (cases "stage3 gf cfg adata ct gs")
      case (Inl e)
      with Cons.IH [of "filter ?P gs"] have "\<not> (\<forall>g\<in>set gs. \<exists>ok.
          check_niches gf cfg adata ct g (fibrotic_niches cfg) = Inr ok)"
        by simp
      with Inl Inr show ?thesis by simp
    next
      case r': (Inr r')
      with Cons.IH [of r'] have
        a: "\<forall>g\<in>set gs. \<exists>ok. check_niches gf cfg adata ct g (fibrotic_niches cfg) = Inr ok"
        and b: "r' = filter ?P gs"
        by simp_all
      show ?thesis
        using Inr r' a b ok by auto
    qed
  qed
qed

text \<open>
  Claim C2. With a positive early-phase window, a fibrotic-associated niche passes for
  a gene when the intersection of target cell type and niche is not empty and the
  trajectory of the gene there is early-rising: the mean of the first
  \<open>early_phase_bins\<close> samples of the derivative, with respect to the bin centers, of
  the trajectory smoothed with standard deviation 2 is strictly positive.
  Stage 3 returns exactly when the loop over the niches returns for every gene, and then
  it keeps exactly the genes for which every fibrotic-associated niche passes; it
  returns in particular when, for every gene and niche, the intersection is empty or
  the binner and the derivative do not raise. The loop over the niches of one gene is
  decided by the first niche that does not pass: none, and the gene is kept; an empty
  intersection, and the gene is rejected without a look at the remaining niches; a
  niche where binning or the derivative raises, and the loop raises; any other niche,
  and the gene is rejected.
\<close>

theorem stage3_early_rising_every_niche:
  assumes "0 < early_phase_bins cfg"
  shows "((stage3 gf cfg adata ct candidates = Inr kept) =
            ((\<forall>g\<in>set candidates. \<exists>ok.
                 check_niches gf cfg adata ct g (fibrotic_niches cfg) = Inr ok)
             \<and> kept = filter (\<lambda>g. \<forall>niche\<in>set (fibrotic_niches cfg).
                                     niche_cells adata ct niche \<noteq> []
                                   \<and> early_rising gf cfg (niche_cells adata ct niche) g)
                               candidates))
       \<and> ((\<forall>g\<in>set candidates. \<forall>niche\<in>set (fibrotic_niches cfg).
               niche_cells adata ct niche = []
             \<or> (\<exists>v. early_gradient gf cfg (niche_cells adata ct niche) g = Inr v))
           \<longrightarrow> stage3 gf cfg adata ct candidates =
                 Inr (filter (\<lambda>g. \<forall>niche\<in>set (fibrotic_niches cfg).
                                     niche_cells adata ct niche \<noteq> []
                                   \<and> early_rising gf cfg (niche_cells adata ct niche) g)
                        candidates))
       \<and> check_niches gf cfg adata ct g niches =
           (case dropWhile (\<lambda>niche. niche_cells adata ct niche \<noteq> []
                                \<and> early_rising gf cfg (niche_cells adata ct niche) g) niches of
              [] \<Rightarrow> Inr True
            | niche # rest \<Rightarrow>
                if niche_cells adata ct niche = [] then Inr False
                else case early_gradient gf cfg (niche_cells adata ct niche) g of
                       Inl e \<Rightarrow> Inl e | Inr v \<Rightarrow> Inr False)
       \<and> ((check_niches gf cfg adata ct g niches = Inr True) =
            (\<forall>niche\<in>set niches. niche_cells adata ct niche \<noteq> []
                              \<and> early_rising gf cfg (niche_cells adata ct niche) g))
       \<and> (niche_cells adata ct niche = [] \<longrightarrow>
            check_niches gf cfg adata ct g (niche # rest) = Inr False)"
proof (intro conjI impI)
  show "(stage3 gf cfg adata ct candidates = Inr kept) =
            ((\<forall>g\<in>set candidates. \<exists>ok.
                 check_niches gf cfg adata ct g (fibrotic_niches cfg) = Inr ok)
             \<and> kept = filter (\<lambda>g. \<forall>niche\<in>set (fibrotic_niches cfg).
                                     niche_cells adata ct niche \<noteq> []
                                   \<and> early_rising gf cfg (niche_cells adata ct niche) g)
                               candidates)"
    by (rule stage3_returns_iff [OF assms])
next
  assume a: "\<forall>g\<in>set candidates. \<forall>niche\<in>set (fibrotic_niches cfg).
               niche_cells adata ct niche = []
             \<or> (\<exists>v. early_gradient gf cfg (niche_cells adata ct niche) g = Inr v)"
  have "\<forall>g\<in>set candidates. \<exists>ok. check_niches gf cfg adata ct g (fibrotic_niches cfg) = Inr ok"
  proof
    fix g assume "g \<in> set candidates"
    with a show "\<exists>ok. check_niches gf cfg adata ct g (fibrotic_niches cfg) = Inr ok"
      by (intro check_niches_returns [OF assms]) blast
  qed
  then show "stage3 gf cfg adata ct candidates =
                 Inr (filter (\<lambda>g. \<forall>niche\<in>set (fibrotic_niches cfg).
                                     niche_cells adata ct niche \<noteq> []
                                   \<and> early_rising gf cfg (niche_cells adata ct niche) g)
                        candidates)"
    by (simp only: stage3_returns_iff [OF assms])
next
  show "check_niches gf cfg adata ct g niches =
           (case dropWhile (\<lambda>niche. niche_cells adata ct niche \<noteq> []
                                \<and> early_rising gf cfg (niche_cells adata ct niche) g) niches of
              [] \<Rightarrow> Inr True
            | niche # rest \<Rightarrow>
                if niche_cells adata ct niche = [] then Inr False
                else case early_gradient gf cfg (niche_cells adata ct niche) g of
                       Inl e \<Rightarrow> Inl e | Inr v \<Rightarrow> Inr False)"
    by (rule check_niches_first_failure [OF assms])
next
  show "(check_niches gf cfg adata ct g niches = Inr True) =
            (\<forall>niche\<in>set niches. niche_cells adata ct niche \<noteq> []
                              \<and> early_rising gf cfg (niche_cells adata ct niche) g)"
    by (rule check_niches_true_iff [OF assms])
next
  assume "niche_cells adata ct niche = []"
  then show "check_niches gf cfg adata ct g (niche # rest) = Inr False"
    by simp
qed

lemma declining_core_cells:
  "niche_cells declining_table ''Fib'' ''Core'' = niche_cells demo_table ''Fib'' ''Core''"
  by (simp add: niche_cells_def declining_table_def demo_table_def demo_cell_def)

lemma declining_proximal_cells:
  "niche_cells declining_table ''Fib'' ''Proximal'' =
     [demo_cell ''Fib'' ''Proximal'' 0 2 8, demo_cell ''Fib'' ''Proximal'' 2 3 2]"
  by (simp add: niche_cells_def declining_table_def demo_cell_def)

lemma declining_proximal_binned:
  "get_grouped_data (niche_cells declining_table ''Fib'' ''Proximal'') (NUM_BINS demo_config)
     = Inr ([bin_row [demo_cell ''Fib'' ''Proximal'' 0 2 8],
             bin_row [demo_cell ''Fib'' ''Proximal'' 2 3 2]],
            [1 / 2, 3 / 2])"
  unfolding declining_proximal_cells
  by (simp add: binner_defs demo_cell_def demo_config_def upt2)

lemma declining_proximal_gradient:
  "early_gradient no_smoothing demo_config (niche_cells declining_table ''Fib'' ''Proximal'')
     ''GeneA'' = Inr (Some (- 6))"
  unfolding early_gradient_def declining_proximal_binned
  by (simp add: demo_config_def gradient_defs demo_cell_def upt2)

lemma declining_core_gradient:
  "early_gradient no_smoothing demo_config (niche_cells declining_table ''Fib'' ''Core'')
     ''GeneA'' = Inr (Some 20)"
  by (simp only: declining_core_cells demo_core_gradient)

lemma demo_elsewhere: "niche_cells demo_table ''Fib'' ''Elsewhere'' = []"
  by (simp add: niche_cells_def demo_table_def demo_cell_def)

theorem stage3_early_rising_every_niche_witness:
  "0 < early_phase_bins demo_config
   \<and> stage3 no_smoothing demo_config demo_table ''Fib'' [''GeneA''] = Inr [''GeneA'']
   \<and> early_rising no_smoothing demo_config (niche_cells demo_table ''Fib'' ''Core'') ''GeneA''
   \<and> early_rising no_smoothing demo_config (niche_cells demo_table ''Fib'' ''Proximal'') ''GeneA''
   \<and> early_gradient no_smoothing demo_config (niche_cells declining_table ''Fib'' ''Core'')
        ''GeneA'' = Inr (Some 20)
   \<and> early_gradient no_smoothing demo_config (niche_cells declining_table ''Fib'' ''Proximal'')
        ''GeneA'' = Inr (Some (- 6))
   \<and> check_niches no_smoothing demo_config declining_table ''Fib'' ''GeneA'' [''Core'']
        = Inr True
   \<and> \<not> early_rising no_smoothing demo_config
          (niche_cells declining_table ''Fib'' ''Proximal'') ''GeneA''
   \<and> stage3 no_smoothing demo_config declining_table ''Fib'' [''GeneA''] = Inr []
   \<and> niche_cells demo_table ''Fib'' ''Elsewhere'' = []
   \<and> check_niches no_smoothing demo_config demo_table ''Fib'' ''GeneA''
        (''Elsewhere'' # [''Core'', ''Proximal'']) = Inr False
   \<and> stage3 no_smoothing (demo_config\<lparr>fibrotic_niches := [''Elsewhere'', ''Core'']\<rparr>)
        demo_table ''Fib'' [''GeneA''] = Inr []"
proof -
  have h: "0 < early_phase_bins demo_config"
    by (simp add: demo_config_def)
  have fn: "fibrotic_niches demo_config = [''Core'', ''Proximal'']"
    by (simp add: demo_config_def)
  have p: "\<forall>niche\<in>set [''Core'', ''Proximal'']. niche_cells demo_table ''Fib'' niche \<noteq> []
             \<and> early_rising no_smoothing demo_config (niche_cells demo_table ''Fib'' niche) ''GeneA''"
    using stage3_early_rising_every_niche [where cfg = demo_config and gf = no_smoothing
        and ct = "''Fib''" and adata = demo_table and g = "''GeneA''"
        and niches = "[''Core'', ''Proximal'']", OF h]
      demo_check_niches by blast
  then have p': "early_rising no_smoothing demo_config (niche_cells demo_table ''Fib'' ''Core'') ''GeneA''
    \<and> early_rising no_smoothing demo_config (niche_cells demo_table ''Fib'' ''Proximal'') ''GeneA''"
    by simp
  have nr: "\<not> early_rising no_smoothing demo_config
          (niche_cells declining_table ''Fib'' ''Proximal'') ''GeneA''"
    using early_gradient_rising [OF h declining_proximal_gradient] by (simp add: nan_le_def)
  have r: "early_rising no_smoothing demo_config
          (niche_cells declining_table ''Fib'' ''Core'') ''GeneA''"
    using early_gradient_rising [OF h declining_core_gradient] by (simp add: nan_le_def)
  have cne: "niche_cells declining_table ''Fib'' ''Core'' \<noteq> []"
    by (simp add: declining_core_cells demo_nonempty)
  have c1: "check_niches no_smoothing demo_config declining_table ''Fib'' ''GeneA'' [''Core'']
        = Inr True"
    using stage3_early_rising_every_niche [where cfg = demo_config and gf = no_smoothing
        and ct = "''Fib''" and adata = declining_table and g = "''GeneA''"
        and niches = "[''Core'']", OF h]
      r cne by simp
  have ret: "\<forall>g\<in>set [''GeneA'']. \<forall>niche\<in>set (fibrotic_niches demo_config).
               niche_cells declining_table ''Fib'' niche = []
             \<or> (\<exists>v. early_gradient no_smoothing demo_config
                       (niche_cells declining_table ''Fib'' niche) g = Inr v)"
    by (simp add: fn declining_core_gradient declining_proximal_gradient)
  have "stage3 no_smoothing demo_config declining_table ''Fib'' [''GeneA''] =
          Inr (filter (\<lambda>g. \<forall>niche\<in>set (fibrotic_niches demo_config).
                                     niche_cells declining_table ''Fib'' niche \<noteq> []
                                   \<and> early_rising no_smoothing demo_config
                                       (niche_cells declining_table ''Fib'' niche) g)
                        [''GeneA''])"
    using stage3_early_rising_every_niche [where cfg = demo_config and gf = no_smoothing
        and ct = "''Fib''" and adata = declining_table and candidates = "[''GeneA'']", OF h]
      ret by blast
  then have s1: "stage3 no_smoothing demo_config declining_table ''Fib'' [''GeneA''] = Inr []"
    using nr by (simp add: fn)
  have c2: "check_niches no_smoothing demo_config demo_table ''Fib'' ''GeneA''
        (''Elsewhere'' # [''Core'', ''Proximal'']) = Inr False"
    using stage3_early_rising_every_niche [where cfg = demo_config and gf = no_smoothing
        and ct = "''Fib''" and adata = demo_table and g = "''GeneA''"
        and niche = "''Elsewhere''" and rest = "[''Core'', ''Proximal'']", OF h]
      demo_elsewhere by blast
  have s2: "stage3 no_smoothing (demo_config\<lparr>fibrotic_niches := [''Elsewhere'', ''Core'']\<rparr>)
        demo_table ''Fib'' [''GeneA''] = Inr []"
    by (simp add: demo_elsewhere)
  show ?thesis
    using h p' nr c1 s1 c2 s2 demo_stage3 demo_elsewhere declining_core_gradient
      declining_proximal_gradient
    by blast
qed

section \<open>Configurations\<close>

lemma early_gradient_window_clamped:
  assumes "NUM_BINS cfg \<le> early_phase_bins cfg"
  shows "early_gradient gf (cfg\<lparr>early_phase_bins := NUM_BINS cfg\<rparr>) m g
           = early_gradient gf cfg m g"
proof (cases "get_grouped_data m (NUM_BINS cfg)")
  case (Inl e)
  then show ?thesis by (simp add: early_gradient_def)
next
  case (Inr r)
  obtain grp ctr where r: "r = (grp, ctr)" by (cases r)
  note l = grouped_lengths [of m "NUM_BINS cfg" grp ctr]
  show ?thesis
  proof (cases "np_gradient (gf 2 (map (\<lambda>row. row g) grp)) ctr")
    case (Inl e)
    then show ?thesis using Inr r by (simp add: early_gradient_def)
  next
    case d: (Inr d)
    have len: "length d = nat (NUM_BINS cfg)" "2 \<le> length d"
      using np_gradient_length [OF d] l Inr r by simp_all
    moreover from len have "2 \<le> NUM_BINS cfg" by linarith
    ultimately have "py_take (NUM_BINS cfg) d = d" "py_take (early_phase_bins cfg) d = d"
      using assms by (simp_all add: py_take_def)
    then show ?thesis
      using Inr r d by (simp add: early_gradient_def)
  qed
qed

lemma check_niches_window_clamped:
  assumes "NUM_BINS cfg \<le> early_phase_bins cfg"
  shows "check_niches gf (cfg\<lparr>early_phase_bins := NUM_BINS cfg\<rparr>) adata ct g ns
           = check_niches gf cfg adata ct g ns"
  by (induction ns)
     (simp_all add: early_gradient_window_clamped [OF assms] cong: if_cong sum.case_cong)

lemma stage3_window_clamped:
  assumes "NUM_BINS cfg \<le> early_phase_bins cfg"
  shows "stage3 gf (cfg\<lparr>early_phase_bins := NUM_BINS cfg\<rparr>) adata ct gs
           = stage3 gf cfg adata ct gs"
  by (induction gs)
     (simp_all add: check_niches_window_clamped [OF assms] cong: sum.case_cong)

lemma stages_ignore_window:
  "stage1 (cfg\<lparr>early_phase_bins := k\<rparr>) adata ct = stage1 cfg adata ct"
  "stage2 (cfg\<lparr>early_phase_bins := k\<rparr>) adata ct gs = stage2 cfg adata ct gs"
  "stage4 (cfg\<lparr>early_phase_bins := k\<rparr>) adata ct gs = stage4 cfg adata ct gs"
  by (simp_all add: stage1_def stage2_def stage2_frac_def stage4_def stage4_keep_def
      fc_def fibm_def remm_def cong: filter_cong)

lemma cascade_window_clamped:
  assumes "NUM_BINS cfg \<le> early_phase_bins cfg"
  shows "filter_genes_by_conditions gf (cfg\<lparr>early_phase_bins := NUM_BINS cfg\<rparr>) adata ct
           = filter_genes_by_conditions gf cfg adata ct"
  unfolding filter_genes_by_conditions_def stages_ignore_window
    stage3_window_clamped [OF assms]
  by (rule refl)

lemma cascade_nonpositive_bins:
  assumes "NUM_BINS cfg \<le> 0" "g \<in> set (stage2 cfg adata ct (stage1 cfg adata ct))"
    "fibrotic_niches cfg = niche # rest" "niche_cells adata ct niche \<noteq> []"
  shows "\<exists>e. filter_genes_by_conditions gf cfg adata ct = Inl e"
proof -
  obtain e where "get_grouped_data (niche_cells adata ct niche) (NUM_BINS cfg) = Inl e"
    using nonpositive_bins_binner [OF assms(4,1)] by blast
  then have "early_gradient gf cfg (niche_cells adata ct niche) g = Inl e"
    by (simp add: early_gradient_def)
  then have "check_niches gf cfg adata ct g (fibrotic_niches cfg) = Inl e"
    using assms(3,4) by (simp add: Let_def)
  then obtain e' where
    "stage3 gf cfg adata ct (stage2 cfg adata ct (stage1 cfg adata ct)) = Inl e'"
    using assms(2) stage3_error by blast
  then show ?thesis
    by (simp add: filter_genes_by_conditions_def)
qed

text \<open>
  Claim C6, as amended. The cascade has no check of its configuration. A configuration
  whose early-phase window is at least the number of bins is accepted and gives what
  the window equal to the number of bins gives. A bin count that is not positive is
  not detected before the per-gene work: when no gene survives Stage 2 the cascade
  returns the empty list, and when a gene survives Stage 2 and the first fibrotic niche
  holds a cell of the target type, the binner raises inside Stage 3.
\<close>

theorem no_configuration_check:
  "(NUM_BINS cfg \<le> early_phase_bins cfg \<longrightarrow>
      filter_genes_by_conditions gf cfg adata ct
        = filter_genes_by_conditions gf (cfg\<lparr>early_phase_bins := NUM_BINS cfg\<rparr>) adata ct)
   \<and> (stage2 cfg adata ct (stage1 cfg adata ct) = [] \<longrightarrow>
        filter_genes_by_conditions gf cfg adata ct = Inr [])
   \<and> (NUM_BINS cfg \<le> 0
        \<and> g \<in> set (stage2 cfg adata ct (stage1 cfg adata ct))
        \<and> fibrotic_niches cfg = niche # rest
        \<and> niche_cells adata ct niche \<noteq> [] \<longrightarrow>
        (\<exists>e. filter_genes_by_conditions gf cfg adata ct = Inl e))"
proof (intro conjI impI)
  assume "NUM_BINS cfg \<le> early_phase_bins cfg"
  then show "filter_genes_by_conditions gf cfg adata ct
        = filter_genes_by_conditions gf (cfg\<lparr>early_phase_bins := NUM_BINS cfg\<rparr>) adata ct"
    by (simp add: cascade_window_clamped)
next
  assume "stage2 cfg adata ct (stage1 cfg adata ct) = []"
  then show "filter_genes_by_conditions gf cfg adata ct = Inr []"
    by (simp add: filter_genes_by_conditions_def stage4_def)
next
  assume "NUM_BINS cfg \<le> 0
        \<and> g \<in> set (stage2 cfg adata ct (stage1 cfg adata ct))
        \<and> fibrotic_niches cfg = niche # rest
        \<and> niche_cells adata ct niche \<noteq> []"
  then show "\<exists>e. filter_genes_by_conditions gf cfg adata ct = Inl e"
    using cascade_nonpositive_bins by blast
qed

lemma demo_config_window:
  "demo_config\<lparr>early_phase_bins := 5\<rparr>\<lparr>early_phase_bins :=
      NUM_BINS (demo_config\<lparr>early_phase_bins := 5\<rparr>)\<rparr> = demo_config"
  by (simp add: demo_config_def)

lemma demo_wide_window:
  "filter_genes_by_conditions no_smoothing (demo_config\<lparr>early_phase_bins := 5\<rparr>)
     demo_table ''Fib'' = Inr [''GeneA'']"
proof -
  have "NUM_BINS (demo_config\<lparr>early_phase_bins := 5\<rparr>)
          \<le> early_phase_bins (demo_config\<lparr>early_phase_bins := 5\<rparr>)"
    by (simp add: demo_config_def)
  from cascade_window_clamped [OF this, of no_smoothing demo_table "''Fib''"]
  show ?thesis
    by (simp only: demo_config_window demo_cascade)
qed

lemma stages_ignore_bins:
  "stage1 (cfg\<lparr>NUM_BINS := k\<rparr>) adata ct = stage1 cfg adata ct"
  "stage2 (cfg\<lparr>NUM_BINS := k\<rparr>) adata ct gs = stage2 cfg adata ct gs"
  by (simp_all add: stage1_def stage2_def stage2_frac_def)

lemma demo_other_stage1: "stage1 demo_config demo_table ''Other'' = [''GeneA'']"
  by (simp add: stage1_def demo_defs std_gt_iff mean_gt_iff indicator_list_def
      power2_eq_square)

lemma demo_other_stage2:
  "stage2 (demo_config\<lparr>NUM_BINS := 0\<rparr>) demo_table ''Other''
     (stage1 (demo_config\<lparr>NUM_BINS := 0\<rparr>) demo_table ''Other'') = []"
  unfolding stages_ignore_bins demo_other_stage1
  by (simp add: stage2_def stage2_frac_def demo_defs mean_def indicator_list_def nan_ge_def)

lemma demo_zero_bins:
  "filter_genes_by_conditions no_smoothing (demo_config\<lparr>NUM_BINS := 0\<rparr>)
     demo_table ''Other'' = Inr []"
  by (simp add: filter_genes_by_conditions_def demo_other_stage2 stage4_def)

text \<open>
  Claim C6 as stated fails on two configurations that are not rejected: a window of
  five bins over two bins returns a gene, and zero bins return the empty list when no
  gene reaches Stage 3.
\<close>

theorem configuration_not_rejected_counterexample:
  "NUM_BINS (demo_config\<lparr>early_phase_bins := 5\<rparr>)
     < early_phase_bins (demo_config\<lparr>early_phase_bins := 5\<rparr>)
   \<and> filter_genes_by_conditions no_smoothing (demo_config\<lparr>early_phase_bins := 5\<rparr>)
        demo_table ''Fib'' = Inr [''GeneA'']
   \<and> NUM_BINS (demo_config\<lparr>NUM_BINS := 0\<rparr>) \<le> 0
   \<and> filter_genes_by_conditions no_smoothing (demo_config\<lparr>NUM_BINS := 0\<rparr>)
        demo_table ''Other'' = Inr []"
  using demo_wide_window demo_zero_bins by (simp add: demo_config_def)

lemma demo_zero_bins_stage2:
  "''GeneA'' \<in> set (stage2 (demo_config\<lparr>NUM_BINS := 0\<rparr>) demo_table ''Fib''
                      (stage1 (demo_config\<lparr>NUM_BINS := 0\<rparr>) demo_table ''Fib''))"
  unfolding stages_ignore_bins demo_stage1 demo_stage2
  by simp

theorem no_configuration_check_witness:
  "NUM_BINS (demo_config\<lparr>early_phase_bins := 5\<rparr>)
     \<le> early_phase_bins (demo_config\<lparr>early_phase_bins := 5\<rparr>)
   \<and> filter_genes_by_conditions no_smoothing (demo_config\<lparr>early_phase_bins := 5\<rparr>)
        demo_table ''Fib''
      = filter_genes_by_conditions no_smoothing demo_config demo_table ''Fib''
   \<and> stage2 (demo_config\<lparr>NUM_BINS := 0\<rparr>) demo_table ''Other''
        (stage1 (demo_config\<lparr>NUM_BINS := 0\<rparr>) demo_table ''Other'') = []
   \<and> filter_genes_by_conditions no_smoothing (demo_config\<lparr>NUM_BINS := 0\<rparr>)
        demo_table ''Other'' = Inr []
   \<and> NUM_BINS (demo_config\<lparr>NUM_BINS := 0\<rparr>) \<le> 0
   \<and> ''GeneA'' \<in> set (stage2 (demo_config\<lparr>NUM_BINS := 0\<rparr>) demo_table ''Fib''
                        (stage1 (demo_config\<lparr>NUM_BINS := 0\<rparr>) demo_table ''Fib''))
   \<and> fibrotic_niches (demo_config\<lparr>NUM_BINS := 0\<rparr>) = ''Core'' # [''Proximal'']
   \<and> niche_cells demo_table ''Fib'' ''Core'' \<noteq> []
   \<and> (\<exists>e. filter_genes_by_conditions no_smoothing (demo_config\<lparr>NUM_BINS := 0\<rparr>)
             demo_table ''Fib'' = Inl e)"
proof -
  have h1: "NUM_BINS (demo_config\<lparr>early_phase_bins := 5\<rparr>)
     \<le> early_phase_bins (demo_config\<lparr>early_phase_bins := 5\<rparr>)"
    by (simp add: demo_config_def)
  have h3: "NUM_BINS (demo_config\<lparr>NUM_BINS := 0\<rparr>) \<le> 0"
    by simp
  have h4: "fibrotic_niches (demo_config\<lparr>NUM_BINS := 0\<rparr>) = ''Core'' # [''Proximal'']"
    by (simp add: demo_config_def)
  have a: "filter_genes_by_conditions no_smoothing (demo_config\<lparr>early_phase_bins := 5\<rparr>)
        demo_table ''Fib''
      = filter_genes_by_conditions no_smoothing demo_config demo_table ''Fib''"
    using h1 no_configuration_check [of "demo_config\<lparr>early_phase_bins := 5\<rparr>"
        no_smoothing demo_table "''Fib''"]
    by (simp only: demo_config_window)
  have b: "filter_genes_by_conditions no_smoothing (demo_config\<lparr>NUM_BINS := 0\<rparr>)
        demo_table ''Other'' = Inr []"
    using demo_other_stage2 no_configuration_check [of "demo_config\<lparr>NUM_BINS := 0\<rparr>"
        no_smoothing demo_table "''Other''"]
    by blast
  have c: "\<exists>e. filter_genes_by_conditions no_smoothing (demo_config\<lparr>NUM_BINS := 0\<rparr>)
             demo_table ''Fib'' = Inl e"
    using h3 h4 demo_zero_bins_stage2 demo_nonempty(1)
      no_configuration_check [of "demo_config\<lparr>NUM_BINS := 0\<rparr>"
        no_smoothing demo_table "''Fib''" "''GeneA''" "''Core''" "[''Proximal'']"]
    by blast
  show ?thesis
    using h1 h3 h4 a b c demo_other_stage2 demo_zero_bins_stage2 demo_nonempty(1) by blast
qed

section \<open>The fold change of the output table\<close>

lemma log2fc_populations:
  assumes "mean (column (tgt_cells adata ct) g) = Some a"
    "mean (column (remote_any_type cfg adata) g) = Some b" "0 \<le> a" "0 \<le> b"
  shows "log2fc cfg adata ct g = Ratio (log 2 ((a + 1 / 10 ^ 9) / (b + 1 / 10 ^ 9)))"
proof -
  have "0 < a + 1 / 10 ^ 9" "0 < b + 1 / 10 ^ 9"
    using assms(3,4) by (simp_all add: add_nonneg_pos)
  then show ?thesis
    using assms(1,2)
    by (simp add: log2fc_def log2fc_ratio_def np_log2_def float_div_def remote_any_type_def)
qed

text \<open>
  Claim C8. In the small table the \<^verbatim>\<open>log2fc\<close> expression gives 0 for \<open>GeneA\<close>: its
  numerator is the mean over all cells of the target cell type (6) and its denominator
  the mean over all cells of the remote niche (6). The mean over the fibrotic
  population is 7 among the cells of the target type and 28/5 among all cells, the mean
  over the remote population 2 among the cells of the target type and 6 among all
  cells: no ratio of a fibrotic mean to a remote mean has logarithm 0.
\<close>

theorem log2fc_demo_value:
  "log2fc demo_config demo_table ''Fib'' ''GeneA'' = Ratio 0
   \<and> mean (column (tgt_cells demo_table ''Fib'') ''GeneA'') = Some 6
   \<and> mean (column (remote_any_type demo_config demo_table) ''GeneA'') = Some 6
   \<and> mean (column (fibm demo_config demo_table ''Fib'') ''GeneA'') = Some 7
   \<and> mean (column (remm demo_config demo_table ''Fib'') ''GeneA'') = Some 2
   \<and> mean (column (fibrotic_any_type demo_config demo_table) ''GeneA'') = Some (28 / 5)
   \<and> log 2 (7 / 2) \<noteq> 0 \<and> log 2 (7 / 6) \<noteq> 0
   \<and> log 2 ((28 / 5) / 2) \<noteq> 0 \<and> log 2 ((28 / 5) / 6) \<noteq> 0"
proof -
  have r: "log2fc_ratio demo_config demo_table ''Fib'' ''GeneA'' = Ratio 1"
    by (simp add: log2fc_ratio_def float_div_def mean_def demo_defs)
  have a: "log2fc demo_config demo_table ''Fib'' ''GeneA'' = Ratio 0"
    by (simp add: log2fc_def np_log2_def r)
  have m: "mean (column (tgt_cells demo_table ''Fib'') ''GeneA'') = Some 6
   \<and> mean (column (remote_any_type demo_config demo_table) ''GeneA'') = Some 6
   \<and> mean (column (fibm demo_config demo_table ''Fib'') ''GeneA'') = Some 7
   \<and> mean (column (remm demo_config demo_table ''Fib'') ''GeneA'') = Some 2
   \<and> mean (column (fibrotic_any_type demo_config demo_table) ''GeneA'') = Some (28 / 5)"
    by (simp add: fibm_def remm_def fibrotic_any_type_def remote_any_type_def mean_def
        demo_defs)
  have "0 < log 2 (7 / 2)" "0 < log 2 (7 / 6)" "0 < log 2 ((28 / 5) / 2)"
    "log 2 ((28 / 5) / 6) < 0"
    by simp_all
  then have l: "log 2 (7 / 2) \<noteq> 0 \<and> log 2 (7 / 6) \<noteq> 0
   \<and> log 2 ((28 / 5) / 2) \<noteq> 0 \<and> log 2 ((28 / 5) / 6) \<noteq> 0"
    by linarith
  show ?thesis using a m l by blast
qed

end
